theory Spec2Isabelle
  imports Main "HOL-Library.AList"
begin

section \<open>mailsorter: the mail archive of \<^verbatim>\<open>src/mailsorter/archive.py\<close>\<close>

text \<open>
  The archive engine is embedded function by function. Python objects that are mutated
  in place (the \<^verbatim>\<open>MailArchive\<close> instance, the archive directory on disk, the
  \<^verbatim>\<open>mailbox.mbox\<close> handles) are passed in and returned; a raised exception is the
  \<open>Inl\<close> side of a sum, and a function that mutates before it raises returns the mutated
  state next to the error.

  The standard library is not part of the repository. Its arithmetic (calendar and
  datetime) is written out below after the library's pure-Python sources; its string
  parsers, the hash and what depends on the platform are parameters, collected in the
  record \<open>lib\<close>, and every theorem holds for every value of them.
\<close>

subsection \<open>Strings and formatting\<close>

text \<open>\<^verbatim>\<open>str.lower\<close> on ASCII text; header names and addresses are taken to be ASCII.\<close>

definition lower_char :: "char \<Rightarrow> char" where
  "lower_char c =
     (case map_of (zip ''ABCDEFGHIJKLMNOPQRSTUVWXYZ'' ''abcdefghijklmnopqrstuvwxyz'') c of
        None \<Rightarrow> c
      | Some d \<Rightarrow> d)"

definition str_lower :: "string \<Rightarrow> string" where
  "str_lower s = map lower_char s"

definition digit_char :: "nat \<Rightarrow> char" where
  "digit_char d = ''0123456789'' ! d"

text \<open>\<^verbatim>\<open>'%d' % n\<close> for a natural number.\<close>

fun str_nat :: "nat \<Rightarrow> string" where
  "str_nat n = (if n < 10 then [digit_char n] else str_nat (n div 10) @ [digit_char (n mod 10)])"

declare str_nat.simps [simp del]

text \<open>
  \<^verbatim>\<open>'%0<w>d' % n\<close>: zero padding up to the width \<open>w\<close>, the sign counted in the
  width.
\<close>

definition fmt_0d :: "nat \<Rightarrow> int \<Rightarrow> string" where
  "fmt_0d w n =
     (if n < 0
      then CHR ''-'' # replicate (w - 1 - length (str_nat (nat (- n)))) (CHR ''0'') @ str_nat (nat (- n))
      else replicate (w - length (str_nat (nat n))) (CHR ''0'') @ str_nat (nat n))"

text \<open>\<^verbatim>\<open>'%d' % n\<close> for an integer.\<close>

definition str_int :: "int \<Rightarrow> string" where
  "str_int n = (if n < 0 then CHR ''-'' # str_nat (nat (- n)) else str_nat (nat n))"

text \<open>\<^verbatim>\<open>sep.join(xs)\<close>.\<close>

fun join :: "string \<Rightarrow> string list \<Rightarrow> string" where
  "join sep [] = []"
| "join sep [x] = x"
| "join sep (x # y # ys) = x @ sep @ join sep (y # ys)"

subsection \<open>Messages\<close>

text \<open>
  A message, as the parser made it from bytes, is its header list, in order, with the
  values as bytes, and its serialisation \<^verbatim>\<open>bytes(msg)\<close>.
\<close>

record message =
  headers :: "(string \<times> string) list"
  as_bytes :: string

text \<open>
  What a message hands out for a header value: the value as a \<^verbatim>\<open>str\<close>, or, when it
  holds a byte outside ASCII, an \<^verbatim>\<open>email.header.Header\<close> object made from it (the
  library's \<^verbatim>\<open>_sanitize_header\<close>). A \<^verbatim>\<open>Header\<close> object is true as a condition
  and has none of the methods of \<^verbatim>\<open>str\<close>.
\<close>

datatype hvalue = Str string | Header string

definition sanitize_header :: "string \<Rightarrow> hvalue" where
  "sanitize_header v = (if list_ex digit7 v then Header v else Str v)"

text \<open>\<^verbatim>\<open>msg.get(name)\<close>: the first header of that name, compared without case.\<close>

definition msg_get :: "message \<Rightarrow> string \<Rightarrow> hvalue option" where
  "msg_get m name =
     map_option (\<lambda>kv. sanitize_header (snd kv))
       (find (\<lambda>kv. str_lower (fst kv) = str_lower name) (headers m))"

text \<open>\<^verbatim>\<open>msg.get_all(name, [])\<close>: every header of that name, in order.\<close>

definition msg_get_all :: "message \<Rightarrow> string \<Rightarrow> hvalue list" where
  "msg_get_all m name =
     map (\<lambda>kv. sanitize_header (snd kv))
       (filter (\<lambda>kv. str_lower (fst kv) = str_lower name) (headers m))"

text \<open>\<^verbatim>\<open>name in msg\<close>.\<close>

definition msg_contains :: "message \<Rightarrow> string \<Rightarrow> bool" where
  "msg_contains m name = (str_lower name \<in> set (map (\<lambda>kv. str_lower (fst kv)) (headers m)))"

subsection \<open>Errors\<close>

text \<open>
  The two exceptions of the module, the two library exceptions \<^verbatim>\<open>process\<close> names,
  and the library exceptions the modelled paths can raise.
\<close>

datatype error =
    DuplicateError
  | UndatedError
  | KeyError
  | UnicodeDecodeError
  | AttributeError
  | TypeError
  | ValueError
  | OSError
  | UnpicklingError

subsection \<open>Dates: \<^verbatim>\<open>email.utils\<close>, \<^verbatim>\<open>calendar\<close>, \<^verbatim>\<open>datetime\<close>\<close>

text \<open>
  The fields of the ten-tuple of \<^verbatim>\<open>parsedate_tz\<close> that are read afterwards: six
  date and time fields and the zone offset in seconds (\<^verbatim>\<open>None\<close> when the string names
  no zone).
\<close>

record time_tuple =
  tm_year :: int
  tm_mon :: int
  tm_mday :: int
  tm_hour :: int
  tm_min :: int
  tm_sec :: int
  tm_tz :: "int option"

record datetime =
  dt_year :: int
  dt_month :: int
  dt_day :: int
  dt_hour :: int
  dt_minute :: int
  dt_second :: int

text \<open>
  The library functions taken as parameters: the MD5 hex digest, the date parser
  \<^verbatim>\<open>email._parseaddr._parsedate_tz\<close> on a string that is not empty,
  \<^verbatim>\<open>time.mktime\<close> (local time), the address parsers \<^verbatim>\<open>parseaddr\<close> and
  \<^verbatim>\<open>getaddresses\<close>, and \<^verbatim>\<open>str\<close> of a \<^verbatim>\<open>Header\<close> object; and what the
  platform decides: whether \<^verbatim>\<open>%Y\<close> of the C library pads a year below 1000 to four
  digits (glibc does not), and the bytes \<^verbatim>\<open>bytes(msg)\<close> gives for a message read
  back from an mbox file, as a function of the bytes of the message that was added (the
  mailbox library ends the message with a newline and escapes body lines that start with
  \<^verbatim>\<open>From\<close>; the headers are as they were).
\<close>

record lib =
  md5_hexdigest :: "string \<Rightarrow> string"
  parsedate_tz_raw :: "string \<Rightarrow> time_tuple option"
  time_mktime :: "time_tuple \<Rightarrow> error + int"
  parseaddr :: "string \<Rightarrow> string \<times> string"
  getaddresses :: "string list \<Rightarrow> (string \<times> string) list"
  header_str :: "string \<Rightarrow> string"
  strftime_pads_year :: bool
  mbox_read_back :: "string \<Rightarrow> string"

text \<open>\<^verbatim>\<open>str(v)\<close> for a header value.\<close>

definition hstr :: "lib \<Rightarrow> hvalue \<Rightarrow> string" where
  "hstr L v = (case v of Str s \<Rightarrow> s | Header h \<Rightarrow> header_str L h)"

text \<open>
  \<^verbatim>\<open>email.utils.parsedate_tz\<close> on a string: the raw parser returns \<^verbatim>\<open>None\<close>
  for the empty string before anything else, and a missing zone in its result is
  replaced by offset 0.
\<close>

definition parsedate_tz :: "lib \<Rightarrow> string \<Rightarrow> time_tuple option" where
  "parsedate_tz L s =
     (if s = [] then None
      else
        (case parsedate_tz_raw L s of
           None \<Rightarrow> None
         | Some tt \<Rightarrow> Some (tt\<lparr>tm_tz := Some (case tm_tz tt of None \<Rightarrow> 0 | Some z \<Rightarrow> z)\<rparr>)))"

definition is_leap :: "int \<Rightarrow> bool" where
  "is_leap year = (year mod 4 = 0 \<and> (year mod 100 \<noteq> 0 \<or> year mod 400 = 0))"

definition days_before_year :: "int \<Rightarrow> int" where
  "days_before_year year =
     (let y = year - 1 in y * 365 + y div 4 - y div 100 + y div 400)"

definition DAYS_IN_MONTH :: "int list" where
  "DAYS_IN_MONTH = [- 1, 31, 28, 31, 30, 31, 30, 31, 31, 30, 31, 30, 31]"

definition DAYS_BEFORE_MONTH :: "int list" where
  "DAYS_BEFORE_MONTH = [- 1, 0, 31, 59, 90, 120, 151, 181, 212, 243, 273, 304, 334]"

text \<open>Both are called with \<open>1 \<le> month \<le> 12\<close> only.\<close>

definition days_before_month :: "int \<Rightarrow> int \<Rightarrow> int" where
  "days_before_month year month =
     DAYS_BEFORE_MONTH ! nat month + (if month > 2 \<and> is_leap year then 1 else 0)"

definition ymd2ord :: "int \<Rightarrow> int \<Rightarrow> int \<Rightarrow> int" where
  "ymd2ord year month day = days_before_year year + days_before_month year month + day"

text \<open>\<^verbatim>\<open>_ord2ymd\<close>, for an ordinal \<open>n \<ge> 1\<close>.\<close>

definition ord2ymd :: "int \<Rightarrow> int \<times> int \<times> int" where
  "ord2ymd n0 =
     (let n = n0 - 1;
          n400 = n div 146097; n = n mod 146097;
          year = n400 * 400 + 1;
          n100 = n div 36524; n = n mod 36524;
          n4 = n div 1461; n = n mod 1461;
          n1 = n div 365; n = n mod 365;
          year = year + n100 * 100 + n4 * 4 + n1
      in if n1 = 4 \<or> n100 = 4 then (year - 1, 12, 31)
         else
           let leapyear = (n1 = 3 \<and> (n4 \<noteq> 24 \<or> n100 = 3));
               month = (n + 50) div 32;
               preceding = DAYS_BEFORE_MONTH ! nat month + (if month > 2 \<and> leapyear then 1 else 0)
           in if preceding > n
              then let month = month - 1;
                       preceding = preceding - (DAYS_IN_MONTH ! nat month
                                      + (if month = 2 \<and> leapyear then 1 else 0))
                   in (year, month, n - preceding + 1)
              else (year, month, n - preceding + 1))"

text \<open>
  \<^verbatim>\<open>calendar.timegm\<close>. It builds \<^verbatim>\<open>datetime.date(year, month, 1)\<close>, which raises
  \<^verbatim>\<open>ValueError\<close> outside years 1 to 9999 and months 1 to 12; day, hour, minute and
  second are not checked. 719163 is the ordinal of 1970-01-01.
\<close>

definition timegm :: "time_tuple \<Rightarrow> error + int" where
  "timegm tt =
     (if tm_year tt < 1 \<or> 9999 < tm_year tt \<or> tm_mon tt < 1 \<or> 12 < tm_mon tt
      then Inl ValueError
      else
        let days = ymd2ord (tm_year tt) (tm_mon tt) 1 - 719163 + tm_mday tt - 1;
            hours = days * 24 + tm_hour tt;
            minutes = hours * 60 + tm_min tt;
            seconds = minutes * 60 + tm_sec tt
        in Inr seconds)"

text \<open>\<^verbatim>\<open>email.utils.mktime_tz\<close>.\<close>

definition mktime_tz :: "lib \<Rightarrow> time_tuple \<Rightarrow> error + int" where
  "mktime_tz L tt =
     (case tm_tz tt of
        None \<Rightarrow> time_mktime L tt
      | Some z \<Rightarrow> (case timegm tt of Inl e \<Rightarrow> Inl e | Inr t \<Rightarrow> Inr (t - z)))"

text \<open>
  \<^verbatim>\<open>datetime.datetime.utcfromtimestamp\<close> of an integer: the proleptic Gregorian date
  and the time of day, an error outside years 1 to 9999 (3652059 is the ordinal of
  9999-12-31; the library raises \<^verbatim>\<open>ValueError\<close> or \<^verbatim>\<open>OverflowError\<close> there,
  neither caught by the callers).
\<close>

definition utcfromtimestamp :: "int \<Rightarrow> error + datetime" where
  "utcfromtimestamp t =
     (let ordinal = t div 86400 + 719163; s = t mod 86400
      in if ordinal < 1 \<or> 3652059 < ordinal then Inl ValueError
         else
           (case ord2ymd ordinal of
              (y, m, d) \<Rightarrow>
                Inr \<lparr>dt_year = y, dt_month = m, dt_day = d,
                     dt_hour = s div 3600, dt_minute = s mod 3600 div 60, dt_second = s mod 60\<rparr>))"

text \<open>
  \<^verbatim>\<open>strftime('%Y-%m-%d %H:%M:%S')\<close> of a date of the years 1 to 9999. The year is
  written by the C library: in full, and padded to four digits only where the platform
  does so.
\<close>

definition strftime :: "lib \<Rightarrow> datetime \<Rightarrow> string" where
  "strftime L dt =
     (if strftime_pads_year L then fmt_0d 4 (dt_year dt) else str_int (dt_year dt)) @ ''-'' @
     fmt_0d 2 (dt_month dt) @ ''-'' @ fmt_0d 2 (dt_day dt) @ '' '' @
     fmt_0d 2 (dt_hour dt) @ '':'' @ fmt_0d 2 (dt_minute dt) @ '':'' @ fmt_0d 2 (dt_second dt)"

subsection \<open>The archive directory, mailbox handles and the archive object\<close>

text \<open>
  A directory entry is described by the two ways the code reads it: the messages
  \<^verbatim>\<open>mailbox.mbox\<close> finds in it, and what \<^verbatim>\<open>pickle.load\<close> returns for it
  (\<open>None\<close> when it raises). The directory is an association list in the order of
  \<^verbatim>\<open>os.listdir\<close>; a new entry goes to the end.
\<close>

record dir_entry =
  messages :: "message list"
  pickled :: "string set option"

text \<open>A \<^verbatim>\<open>mailbox.mbox\<close> object: the entry it was opened on, and whether it was closed.\<close>

record mbox =
  mbox_path :: string
  mbox_closed :: bool

text \<open>The mailbox objects live in a heap; a handle is an index into it.\<close>

record world =
  files :: "(string \<times> dir_entry) list"
  heap :: "mbox list"

text \<open>
  The attributes of a \<^verbatim>\<open>MailArchive\<close> between \<^verbatim>\<open>__enter__\<close> and
  \<^verbatim>\<open>__exit__\<close>: the dictionary \<^verbatim>\<open>boxes\<close> (in insertion order) and the set
  \<^verbatim>\<open>seen\<close>.
\<close>

record archive =
  boxes :: "(string \<times> nat) list"
  seen :: "string set"

definition SEEN_FNAME :: string where
  "SEEN_FNAME = ''seen.pickle''"

definition MailArchive_enter :: "world \<Rightarrow> error + archive" where
  "MailArchive_enter w =
     (case map_of (files w) SEEN_FNAME of
        None \<Rightarrow> Inr \<lparr>boxes = [], seen = {}\<rparr>
      | Some f \<Rightarrow>
          (case pickled f of
             None \<Rightarrow> Inl UnpicklingError
           | Some s \<Rightarrow> Inr \<lparr>boxes = [], seen = s\<rparr>))"

text \<open>\<^verbatim>\<open>outbox.close()\<close>.\<close>

definition close_box :: "nat \<Rightarrow> mbox list \<Rightarrow> mbox list" where
  "close_box h hp = (if h < length hp then hp[h := (hp ! h)\<lparr>mbox_closed := True\<rparr>] else hp)"

text \<open>
  \<^verbatim>\<open>__exit__\<close>: every cached handle is closed, the set is dumped over the ledger
  file (a dumped set of digests holds no message), and both attributes are deleted, so
  no archive state is returned. The result is the method's return value
  \<^verbatim>\<open>False\<close> and the world.
\<close>

definition MailArchive_exit :: "archive \<Rightarrow> world \<Rightarrow> bool \<times> world" where
  "MailArchive_exit a w =
     (False,
      w\<lparr>heap := fold close_box (map snd (boxes a)) (heap w),
        files := AList.update SEEN_FNAME \<lparr>messages = [], pickled = Some (seen a)\<rparr> (files w)\<rparr>)"

text \<open>
  The messages of a directory entry (none when there is no such entry), and the messages
  a handle reads; \<^verbatim>\<open>len(outbox)\<close> is their number.
\<close>

definition file_messages :: "world \<Rightarrow> string \<Rightarrow> message list" where
  "file_messages w name = (case map_of (files w) name of None \<Rightarrow> [] | Some f \<Rightarrow> messages f)"

definition box_messages :: "world \<Rightarrow> nat \<Rightarrow> message list" where
  "box_messages w h = (if h < length (heap w) then file_messages w (mbox_path (heap w ! h)) else [])"

text \<open>
  \<^verbatim>\<open>mailbox.mbox(self.directory + os.sep + name)\<close>, stored in the cache: a new
  handle, and a new empty file when there is none of that name.
\<close>

definition open_box :: "string \<Rightarrow> archive \<Rightarrow> world \<Rightarrow> nat \<times> archive \<times> world" where
  "open_box name a w =
     (let h = length (heap w);
          fs = (case map_of (files w) name of
                  None \<Rightarrow> files w @ [(name, \<lparr>messages = [], pickled = None\<rparr>)]
                | Some f \<Rightarrow> files w)
      in (h, a\<lparr>boxes := AList.update name h (boxes a)\<rparr>,
          w\<lparr>files := fs, heap := heap w @ [\<lparr>mbox_path = name, mbox_closed = False\<rparr>]\<rparr>))"

text \<open>
  \<^verbatim>\<open>_get_box_by_name\<close>. The test \<^verbatim>\<open>if outbox\<close> is the truth value of a mailbox
  object, which is its length: a cached handle on a mailbox without messages is not
  returned, a new one replaces it in the cache.
\<close>

definition get_box_by_name :: "string \<Rightarrow> archive \<Rightarrow> world \<Rightarrow> nat \<times> archive \<times> world" where
  "get_box_by_name name a w =
     (case map_of (boxes a) name of
        None \<Rightarrow> open_box name a w
      | Some h \<Rightarrow> if box_messages w h \<noteq> [] then (h, a, w) else open_box name a w)"

definition partition_name :: "datetime \<Rightarrow> string" where
  "partition_name timestamp = fmt_0d 4 (dt_year timestamp) @ fmt_0d 2 (dt_month timestamp)"

definition get_box_by_timestamp :: "datetime \<Rightarrow> archive \<Rightarrow> world \<Rightarrow> nat \<times> archive \<times> world" where
  "get_box_by_timestamp timestamp a w = get_box_by_name (partition_name timestamp) a w"

text \<open>
  \<^verbatim>\<open>outbox.add(msg)\<close>: the message is appended to the handle's file. What is read
  back from the file has the headers of the message and the bytes the mailbox library
  made of its bytes.
\<close>

definition as_stored :: "lib \<Rightarrow> message \<Rightarrow> message" where
  "as_stored L msg = msg\<lparr>as_bytes := mbox_read_back L (as_bytes msg)\<rparr>"

definition mbox_add :: "lib \<Rightarrow> nat \<Rightarrow> message \<Rightarrow> world \<Rightarrow> world" where
  "mbox_add L h msg w =
     (if h < length (heap w)
      then w\<lparr>files := AList.map_entry (mbox_path (heap w ! h))
                        (\<lambda>f. f\<lparr>messages := messages f @ [as_stored L msg]\<rparr>) (files w)\<rparr>
      else w)"

text \<open>
  \<^verbatim>\<open>MailArchive.add\<close>. The test \<^verbatim>\<open>if not timestamp\<close> holds for \<^verbatim>\<open>None\<close>
  and for the empty string; a \<^verbatim>\<open>Header\<close> object passes it, and
  \<^verbatim>\<open>parsedate_tz\<close> then calls its missing method \<^verbatim>\<open>split\<close>, which raises
  \<^verbatim>\<open>AttributeError\<close>.
\<close>

definition MailArchive_add ::
  "lib \<Rightarrow> message \<Rightarrow> archive \<Rightarrow> world \<Rightarrow> (error + unit) \<times> archive \<times> world" where
  "MailArchive_add L msg a w =
     (let md5 = md5_hexdigest L (as_bytes msg)
      in if md5 \<in> seen a then (Inl DuplicateError, a, w)
         else
           let a1 = a\<lparr>seen := seen a \<union> {md5}\<rparr>
           in case msg_get msg ''Date'' of
                None \<Rightarrow> (Inl UndatedError, a1, w)
              | Some (Header h) \<Rightarrow> (Inl AttributeError, a1, w)
              | Some (Str timestamp) \<Rightarrow>
                  if timestamp = [] then (Inl UndatedError, a1, w)
                  else
                    (case parsedate_tz L timestamp of
                       None \<Rightarrow> (Inl UndatedError, a1, w)
                     | Some tt \<Rightarrow>
                         (case mktime_tz L tt of
                            Inl e \<Rightarrow> (Inl e, a1, w)
                          | Inr t \<Rightarrow>
                              (case utcfromtimestamp t of
                                 Inl e \<Rightarrow> (Inl e, a1, w)
                               | Inr dt \<Rightarrow>
                                   (case get_box_by_timestamp dt a1 w of
                                      (outbox, a2, w2) \<Rightarrow>
                                        (Inr (), a2, mbox_add L outbox msg w2))))))"

text \<open>
  \<^verbatim>\<open>re.match(r'[12][0-9]{5}', name)\<close>: the pattern is matched at the start of the
  name; what follows the sixth character is not looked at.
\<close>

definition re_match_partition :: "string \<Rightarrow> bool" where
  "re_match_partition name =
     (case name of
        [] \<Rightarrow> False
      | c # cs \<Rightarrow>
          c \<in> set ''12'' \<and> 5 \<le> length cs \<and> list_all (\<lambda>d. d \<in> set ''0123456789'') (take 5 cs))"

text \<open>
  A \<^verbatim>\<open>for msg in ...: body\<close> loop over the messages of one mailbox. The body works
  on a state of the caller's (the output of \<^verbatim>\<open>export\<close>); an exception it raises
  ends the loop.
\<close>

fun for_msgs :: "(message \<Rightarrow> 's \<Rightarrow> error + 's) \<Rightarrow> message list \<Rightarrow> 's \<Rightarrow> (error + unit) \<times> 's" where
  "for_msgs body [] s = (Inr (), s)"
| "for_msgs body (m # ms) s =
     (case body m s of
        Inl e \<Rightarrow> (Inl e, s)
      | Inr s' \<Rightarrow> for_msgs body ms s')"

text \<open>
  \<^verbatim>\<open>MailArchive.__iter__\<close>, a generator, together with the loop that consumes it:
  \<open>names\<close> is the result of \<^verbatim>\<open>os.listdir\<close>, \<open>body\<close> the body of the consuming
  loop.
\<close>

fun MailArchive_iter ::
  "(message \<Rightarrow> 's \<Rightarrow> error + 's) \<Rightarrow> string list \<Rightarrow> archive \<Rightarrow> world \<Rightarrow> 's \<Rightarrow>
     (error + unit) \<times> archive \<times> world \<times> 's" where
  "MailArchive_iter body [] a w s = (Inr (), a, w, s)"
| "MailArchive_iter body (name # names) a w s =
     (if \<not> re_match_partition name then MailArchive_iter body names a w s
      else
        (case get_box_by_name name a w of
           (box, a', w') \<Rightarrow>
             (case for_msgs body (box_messages w' box) s of
                (Inl e, s') \<Rightarrow> (Inl e, a', w', s')
              | (Inr u, s') \<Rightarrow> MailArchive_iter body names a' w' s')))"

text \<open>The loop body that only collects what the generator yields.\<close>

definition collect :: "message \<Rightarrow> message list \<Rightarrow> error + message list" where
  "collect m acc = Inr (acc @ [m])"

text \<open>
  \<^verbatim>\<open>with MailArchive(archive_dir) as archive: body\<close>. The constructor only makes
  sure the directory exists. When \<^verbatim>\<open>__enter__\<close> raises, nothing else runs. Otherwise
  the body runs, then \<^verbatim>\<open>__exit__\<close> runs, on a normal end as on an exception; the
  exception is raised again unless \<^verbatim>\<open>__exit__\<close> returned a true value.
\<close>

definition with_MailArchive ::
  "(archive \<Rightarrow> world \<Rightarrow> 's \<Rightarrow> (error + unit) \<times> archive \<times> world \<times> 's) \<Rightarrow> world \<Rightarrow> 's \<Rightarrow>
     (error + unit) \<times> world \<times> 's" where
  "with_MailArchive body w s =
     (case MailArchive_enter w of
        Inl e \<Rightarrow> (Inl e, w, s)
      | Inr a \<Rightarrow>
          (case body a w s of
             (r, a', w', s') \<Rightarrow>
               (case MailArchive_exit a' w' of
                  (suppress, w'') \<Rightarrow> (if suppress then Inr () else r, w'', s'))))"

subsection \<open>Ingestion: \<^verbatim>\<open>process\<close>\<close>

text \<open>
  The \<^verbatim>\<open>for key in box.iterkeys()\<close> loop with its \<^verbatim>\<open>try\<close> statement. The source
  mailbox is the list of what \<^verbatim>\<open>box[key]\<close> gives for each key in turn: a message
  or an exception. \<open>read_and_add\<close> is the two statements \<^verbatim>\<open>msg = box[key]\<close> and
  \<^verbatim>\<open>archive.add(msg)\<close> of the \<^verbatim>\<open>try\<close> body; the counters are
  \<^verbatim>\<open>ok, duplicate, error\<close>.
\<close>

definition read_and_add ::
  "lib \<Rightarrow> error + message \<Rightarrow> archive \<Rightarrow> world \<Rightarrow> (error + unit) \<times> archive \<times> world" where
  "read_and_add L r a w =
     (case r of
        Inl e \<Rightarrow> (Inl e, a, w)
      | Inr msg \<Rightarrow> MailArchive_add L msg a w)"

fun process_keys ::
  "lib \<Rightarrow> (error + message) list \<Rightarrow> nat \<times> nat \<times> nat \<Rightarrow> archive \<Rightarrow> world \<Rightarrow>
     (error + nat \<times> nat \<times> nat) \<times> archive \<times> world" where
  "process_keys L [] counts a w = (Inr counts, a, w)"
| "process_keys L (r # rs) (ok, duplicate, err) a w =
     (case read_and_add L r a w of
        (Inr u, a', w') \<Rightarrow> process_keys L rs (ok + 1, duplicate, err) a' w'
      | (Inl KeyError, a', w') \<Rightarrow> process_keys L rs (ok, duplicate, err) a' w'
      | (Inl UnicodeDecodeError, a', w') \<Rightarrow> process_keys L rs (ok, duplicate, err + 1) a' w'
      | (Inl DuplicateError, a', w') \<Rightarrow> process_keys L rs (ok, duplicate + 1, err) a' w'
      | (Inl UndatedError, a', w') \<Rightarrow> process_keys L rs (ok, duplicate, err + 1) a' w'
      | (Inl e, a', w') \<Rightarrow> (Inl e, a', w'))"

text \<open>The line given to \<^verbatim>\<open>logger.info\<close>.\<close>

definition summary_line :: "string \<Rightarrow> nat \<times> nat \<times> nat \<Rightarrow> string" where
  "summary_line entry counts =
     (case counts of
        (ok, duplicate, err) \<Rightarrow>
          entry @ '': '' @ str_nat ok @ '' OK, '' @ str_nat duplicate @ '' duplicate(s), '' @
          str_nat err @ '' error(s)'')"

text \<open>
  The \<^verbatim>\<open>else\<close> branch of \<^verbatim>\<open>process\<close> for one entry that is not a directory:
  one scope of the archive around the loop, then the summary line. The log is the list
  of lines written so far.
\<close>

definition process_entry ::
  "lib \<Rightarrow> string \<Rightarrow> (error + message) list \<Rightarrow> world \<Rightarrow> string list \<Rightarrow>
     (error + unit) \<times> world \<times> string list" where
  "process_entry L entry box w log =
     with_MailArchive
       (\<lambda>a w log.
          (case process_keys L box (0, 0, 0) a w of
             (Inl e, a', w') \<Rightarrow> (Inl e, a', w', log)
           | (Inr counts, a', w') \<Rightarrow> (Inr (), a', w', log @ [summary_line entry counts])))
       w log"

text \<open>
  The entries \<^verbatim>\<open>process\<close> is given: a mailbox file with its path, or a directory, of
  which \<^verbatim>\<open>os.walk\<close> lists the files (with their paths) and then the subdirectories.
\<close>

datatype tree = Tree "(string \<times> (error + message) list) list" "tree list"

datatype source = Mailbox string "(error + message) list" | Directory tree

fun walk :: "tree \<Rightarrow> (string \<times> (error + message) list) list" where
  "walk (Tree fs ds) = fs @ concat (map walk ds)"

fun process_files ::
  "lib \<Rightarrow> (string \<times> (error + message) list) list \<Rightarrow> world \<Rightarrow> string list \<Rightarrow>
     (error + unit) \<times> world \<times> string list" where
  "process_files L [] w log = (Inr (), w, log)"
| "process_files L ((entry, box) # fs) w log =
     (case process_entry L entry box w log of
        (Inl e, w', log') \<Rightarrow> (Inl e, w', log')
      | (Inr u, w', log') \<Rightarrow> process_files L fs w' log')"

fun process :: "lib \<Rightarrow> source list \<Rightarrow> world \<Rightarrow> string list \<Rightarrow> (error + unit) \<times> world \<times> string list" where
  "process L [] w log = (Inr (), w, log)"
| "process L (Directory t # entries) w log =
     (case process_files L (walk t) w log of
        (Inl e, w', log') \<Rightarrow> (Inl e, w', log')
      | (Inr u, w', log') \<Rightarrow> process L entries w' log')"
| "process L (Mailbox entry box # entries) w log =
     (case process_entry L entry box w log of
        (Inl e, w', log') \<Rightarrow> (Inl e, w', log')
      | (Inr u, w', log') \<Rightarrow> process L entries w' log')"

subsection \<open>Export\<close>

definition csv_header :: string where
  "csv_header = ''timestamp,sender,recipients,size,list'' @ [CHR 0x0A]"

text \<open>
  The \<^verbatim>\<open>%\<close> operator on a format string made of text and of the conversions
  \<^verbatim>\<open>%s\<close>, \<^verbatim>\<open>%d\<close> and \<^verbatim>\<open>%%\<close>, which are those of the row of
  \<^verbatim>\<open>export\<close>; flags, widths and the other conversions are not modelled.
\<close>

datatype fmt_arg = FmtStr string | FmtInt int

definition format_arg :: "char \<Rightarrow> fmt_arg \<Rightarrow> error + string" where
  "format_arg d a =
     (if d = CHR ''s'' then Inr (case a of FmtStr s \<Rightarrow> s | FmtInt n \<Rightarrow> str_int n)
      else if d = CHR ''d'' then (case a of FmtStr s \<Rightarrow> Inl TypeError | FmtInt n \<Rightarrow> Inr (str_int n))
      else Inl ValueError)"

fun py_format :: "string \<Rightarrow> fmt_arg list \<Rightarrow> error + string" where
  "py_format [] [] = Inr []"
| "py_format [] (a # as) = Inl TypeError"
| "py_format [c] args =
     (if c = CHR ''%'' then Inl ValueError
      else (case args of [] \<Rightarrow> Inr [c] | a # as \<Rightarrow> Inl TypeError))"
| "py_format (c # d # cs) args =
     (if c \<noteq> CHR ''%''
      then (case py_format (d # cs) args of Inl e \<Rightarrow> Inl e | Inr s \<Rightarrow> Inr (c # s))
      else if d = CHR ''%''
      then (case py_format cs args of Inl e \<Rightarrow> Inl e | Inr s \<Rightarrow> Inr (CHR ''%'' # s))
      else
        (case args of
           [] \<Rightarrow> Inl TypeError
         | a # as \<Rightarrow>
             (case format_arg d a of
                Inl e \<Rightarrow> Inl e
              | Inr x \<Rightarrow> (case py_format cs as of Inl e \<Rightarrow> Inl e | Inr s \<Rightarrow> Inr (x @ s)))))"

text \<open>
  The Date header as \<^verbatim>\<open>export\<close> turns it into a UTC date:
  \<^verbatim>\<open>parsedate_tz\<close> gives \<^verbatim>\<open>None\<close> for \<^verbatim>\<open>None\<close> and for the empty string,
  and \<^verbatim>\<open>mktime_tz(None)\<close> raises \<^verbatim>\<open>TypeError\<close>; for a \<^verbatim>\<open>Header\<close> object
  \<^verbatim>\<open>parsedate_tz\<close> raises \<^verbatim>\<open>AttributeError\<close>.
\<close>

definition export_timestamp :: "lib \<Rightarrow> message \<Rightarrow> error + datetime" where
  "export_timestamp L msg =
     (case msg_get msg ''Date'' of
        Some (Header h) \<Rightarrow> Inl AttributeError
      | timestamp \<Rightarrow>
          (case (case timestamp of Some (Str d) \<Rightarrow> parsedate_tz L d | _ \<Rightarrow> None) of
             None \<Rightarrow> Inl TypeError
           | Some tt \<Rightarrow>
               (case mktime_tz L tt of
                  Inl e \<Rightarrow> Inl e
                | Inr t \<Rightarrow> utcfromtimestamp t)))"

text \<open>
  The body of the loop of \<^verbatim>\<open>export\<close>; the state is the list of strings written.
  \<^verbatim>\<open>if not sender\<close> holds for \<^verbatim>\<open>None\<close> and for the empty string.
\<close>

definition export_msg :: "lib \<Rightarrow> message \<Rightarrow> string list \<Rightarrow> error + string list" where
  "export_msg L msg output =
     (case msg_get msg ''From'' of
        None \<Rightarrow> Inr output
      | Some sender0 \<Rightarrow>
          if sender0 = Str [] then Inr output
          else
            let sender = str_lower (snd (parseaddr L (hstr L sender0)))
            in case export_timestamp L msg of
                 Inl e \<Rightarrow> Inl e
               | Inr dt \<Rightarrow>
                   let timestamp = strftime L dt;
                       size = length (as_bytes msg);
                       is_list = msg_contains msg ''List-Id'';
                       recipients = map (hstr L) (msg_get_all msg ''To'' @ msg_get_all msg ''Cc'');
                       recipients = getaddresses L recipients;
                       recipients = map (\<lambda>p. str_lower (snd p)) recipients
                   in case py_format (''%s,%s,%s,%d,%d'' @ [CHR 0x0A])
                             [FmtStr timestamp, FmtStr sender, FmtStr (join '' '' recipients),
                              FmtInt (int size), FmtInt (if is_list then 1 else 0)] of
                        Inl e \<Rightarrow> Inl e
                      | Inr row \<Rightarrow> Inr (output @ [row]))"

definition export :: "lib \<Rightarrow> world \<Rightarrow> string list \<Rightarrow> (error + unit) \<times> world \<times> string list" where
  "export L w output =
     with_MailArchive
       (\<lambda>a w output. MailArchive_iter (export_msg L) (map fst (files w)) a w (output @ [csv_header]))
       w output"

subsection \<open>Predicates of the statements\<close>

text \<open>
  Every cached handle is a live mailbox object that was opened on the name it is cached
  under. \<^verbatim>\<open>__enter__\<close> establishes this and every method keeps it.
\<close>

definition cache_ok :: "archive \<Rightarrow> world \<Rightarrow> bool" where
  "cache_ok a w =
     list_all (\<lambda>nh. snd nh < length (heap w) \<and> mbox_path (heap w ! snd nh) = fst nh) (boxes a)"

text \<open>
  The two tests of \<^verbatim>\<open>add\<close> that raise \<^verbatim>\<open>UndatedError\<close>: no Date header or
  an empty one, or a Date header that is a string \<^verbatim>\<open>parsedate_tz\<close> returns
  \<^verbatim>\<open>None\<close> for.
\<close>

definition undated :: "lib \<Rightarrow> message \<Rightarrow> bool" where
  "undated L msg =
     (case msg_get msg ''Date'' of
        None \<Rightarrow> True
      | Some (Str d) \<Rightarrow> d = [] \<or> parsedate_tz L d = None
      | Some (Header h) \<Rightarrow> False)"

text \<open>
  The statements of \<^verbatim>\<open>add\<close> between the ledger and the mailbox, as a function of
  the message: the UTC date of the Date header, or the exception.
\<close>

definition add_timestamp :: "lib \<Rightarrow> message \<Rightarrow> error + datetime" where
  "add_timestamp L msg =
     (case msg_get msg ''Date'' of
        None \<Rightarrow> Inl UndatedError
      | Some (Header h) \<Rightarrow> Inl AttributeError
      | Some (Str d) \<Rightarrow>
          if d = [] then Inl UndatedError
          else
            (case parsedate_tz L d of
               None \<Rightarrow> Inl UndatedError
             | Some tt \<Rightarrow> (case mktime_tz L tt of Inl e \<Rightarrow> Inl e | Inr t \<Rightarrow> utcfromtimestamp t)))"


text \<open>
  The partition names of the specification: six digits, the first of them 1 or 2.
\<close>

definition six_digit_partition_name :: "string \<Rightarrow> bool" where
  "six_digit_partition_name name =
     (length name = 6 \<and> hd name \<in> set ''12'' \<and> list_all (\<lambda>d. d \<in> set ''0123456789'') name)"

text \<open>
  The messages of the entries whose names \<^verbatim>\<open>__iter__\<close> accepts, in listing order.
\<close>

definition stored_messages :: "world \<Rightarrow> message list" where
  "stored_messages w =
     concat (map (file_messages w) (filter re_match_partition (map fst (files w))))"

text \<open>
  The statement of the rows of \<^verbatim>\<open>export\<close> that is compared with \<open>export_msg\<close>,
  field by field. A message is retained when its From header has a value that is not
  the empty string. The timestamp of a message whose Date converts to a UTC date is that
  date in the form \<^verbatim>\<open>%Y-%m-%d %H:%M:%S\<close>; the sender is the address of the From
  header in lower case; the recipients are the addresses of all To headers and then of
  all Cc headers, as the library lists them, each in lower case and none left out, with
  a space between two of them; the size is the number of bytes of the message in
  decimal; the list flag is 1 when there is a List-Id header and 0 otherwise. The row
  is the five fields with a comma between two of them, nothing quoted, and a newline.
\<close>

definition retained :: "message \<Rightarrow> bool" where
  "retained msg = (case msg_get msg ''From'' of None \<Rightarrow> False | Some v \<Rightarrow> v \<noteq> Str [])"

definition dated :: "lib \<Rightarrow> message \<Rightarrow> bool" where
  "dated L msg = (case export_timestamp L msg of Inl e \<Rightarrow> False | Inr dt \<Rightarrow> True)"

definition field_timestamp :: "lib \<Rightarrow> message \<Rightarrow> string" where
  "field_timestamp L msg = (case export_timestamp L msg of Inl e \<Rightarrow> [] | Inr dt \<Rightarrow> strftime L dt)"

definition field_sender :: "lib \<Rightarrow> message \<Rightarrow> string" where
  "field_sender L msg =
     (case msg_get msg ''From'' of None \<Rightarrow> [] | Some v \<Rightarrow> str_lower (snd (parseaddr L (hstr L v))))"

definition field_recipients :: "lib \<Rightarrow> message \<Rightarrow> string" where
  "field_recipients L msg =
     join '' ''
       (map (str_lower \<circ> snd)
          (getaddresses L (map (hstr L) (msg_get_all msg ''To'') @ map (hstr L) (msg_get_all msg ''Cc''))))"

definition field_size :: "message \<Rightarrow> string" where
  "field_size msg = str_nat (length (as_bytes msg))"

definition field_list :: "message \<Rightarrow> string" where
  "field_list msg = (if msg_contains msg ''List-Id'' then ''1'' else ''0'')"

definition csv_row :: "lib \<Rightarrow> message \<Rightarrow> string" where
  "csv_row L msg =
     join '',''
       [field_timestamp L msg, field_sender L msg, field_recipients L msg, field_size msg,
        field_list msg] @ [CHR 0x0A]"

subsection \<open>Sample values\<close>

text \<open>
  Messages and worlds for the closed examples. \<open>sample_lib\<close> gives the values Python
  3.11's library returns on the strings of these messages (the digests of their bytes,
  the parsed dates, the parsed addresses) and a default elsewhere. Its local time zone
  is UTC and its C library is glibc; \<^verbatim>\<open>str\<close> of a \<^verbatim>\<open>Header\<close> object puts the
  replacement character, here in UTF-8, for every byte outside ASCII; and the sample
  messages, which end in a newline and have no body line starting with \<^verbatim>\<open>From\<close>, are
  read back from an mbox file with the bytes they were added with.
\<close>

definition msg_undated :: message where
  "msg_undated =
     \<lparr>headers = [(''Subject'', ''no date'')],
      as_bytes = ''Subject: no date'' @ [CHR 0x0A, CHR 0x0A] @ ''hi'' @ [CHR 0x0A]\<rparr>"

definition msg_march :: message where
  "msg_march =
     \<lparr>headers = [(''Date'', ''Fri, 15 Mar 2024 10:00:00 +0000'')],
      as_bytes = ''Date: Fri, 15 Mar 2024 10:00:00 +0000'' @ [CHR 0x0A, CHR 0x0A] @ ''hi'' @ [CHR 0x0A]\<rparr>"

definition msg_newyear :: message where
  "msg_newyear =
     \<lparr>headers = [(''Date'', ''Sun, 31 Dec 2023 23:59:59 -0100'')],
      as_bytes = ''Date: Sun, 31 Dec 2023 23:59:59 -0100'' @ [CHR 0x0A, CHR 0x0A] @ ''hi'' @ [CHR 0x0A]\<rparr>"

definition msg_nozone :: message where
  "msg_nozone =
     \<lparr>headers = [(''Date'', ''Fri, 15 Mar 2024 10:00:00'')],
      as_bytes = ''Date: Fri, 15 Mar 2024 10:00:00'' @ [CHR 0x0A, CHR 0x0A] @ ''hi'' @ [CHR 0x0A]\<rparr>"

definition msg_export :: message where
  "msg_export =
     \<lparr>headers = [(''From'', ''A@X.COM''), (''To'', ''b@y.com''),
                 (''Date'', ''Fri, 15 Mar 2024 10:00:00 +0000'')],
      as_bytes = ''From: A@X.COM'' @ [CHR 0x0A] @ ''To: b@y.com'' @ [CHR 0x0A] @
                 ''Date: Fri, 15 Mar 2024 10:00:00 +0000'' @ [CHR 0x0A, CHR 0x0A] @ ''hi'' @ [CHR 0x0A]\<rparr>"

definition msg_empty_from :: message where
  "msg_empty_from =
     \<lparr>headers = [(''From'', []), (''Date'', ''Fri, 15 Mar 2024 10:00:00 +0000'')],
      as_bytes = ''From: '' @ [CHR 0x0A] @
                 ''Date: Fri, 15 Mar 2024 10:00:00 +0000'' @ [CHR 0x0A, CHR 0x0A] @ ''hi'' @ [CHR 0x0A]\<rparr>"

definition msg_bad_byte :: message where
  "msg_bad_byte =
     \<lparr>headers = [(''Date'', ''g'' @ [CHR 0xE2] @ ''rbage'')],
      as_bytes = ''Date: g'' @ [CHR 0xE2] @ ''rbage'' @ [CHR 0x0A, CHR 0x0A] @ ''hi'' @ [CHR 0x0A]\<rparr>"

definition msg_from_only :: message where
  "msg_from_only =
     \<lparr>headers = [(''From'', ''c@z.org'')],
      as_bytes = ''From: c@z.org'' @ [CHR 0x0A, CHR 0x0A] @ ''hi'' @ [CHR 0x0A]\<rparr>"

definition msg_list :: message where
  "msg_list =
     \<lparr>headers = [(''Cc'', ''c@z.org, B@Y.com''), (''To'', ''b@y.com''), (''From'', ''Bob <Bob@X.COM>''),
                 (''List-Id'', ''<news.x.com>''), (''Date'', ''Sun, 31 Dec 2023 23:59:59 -0100'')],
      as_bytes = ''Cc: c@z.org, B@Y.com'' @ [CHR 0x0A] @ ''To: b@y.com'' @ [CHR 0x0A] @
                 ''From: Bob <Bob@X.COM>'' @ [CHR 0x0A] @ ''List-Id: <news.x.com>'' @ [CHR 0x0A] @
                 ''Date: Sun, 31 Dec 2023 23:59:59 -0100'' @ [CHR 0x0A, CHR 0x0A] @ ''hi'' @ [CHR 0x0A]\<rparr>"

definition sample_lib :: lib where
  "sample_lib =
     \<lparr>md5_hexdigest =
        (\<lambda>b. case map_of
                [(as_bytes msg_undated, ''a9bea4cb90746ceb3e88eca34d7d93b1''),
                 (as_bytes msg_march, ''3db7d6c8be34e87aeacb5c5e3cf5d082''),
                 (as_bytes msg_newyear, ''8e7e81b044c9f6500024d1669f2590a9''),
                 (as_bytes msg_nozone, ''58d38b8b9892cb51340fe7f479792269''),
                 (as_bytes msg_export, ''9d3820f004042d1a57739fb0233ba2c7''),
                 (as_bytes msg_empty_from, ''68c01b2853d4b343fc414f5369d216a5''),
                 (as_bytes msg_list, ''fd7545794216766e82f94e762065afab''),
                 (as_bytes msg_bad_byte, ''ca4dfbaa81ed081c4dc5b9bd8ed20fcb'')] b of
                None \<Rightarrow> []
              | Some d \<Rightarrow> d),
      parsedate_tz_raw =
        map_of
          [(''Fri, 15 Mar 2024 10:00:00 +0000'',
            \<lparr>tm_year = 2024, tm_mon = 3, tm_mday = 15, tm_hour = 10, tm_min = 0, tm_sec = 0,
             tm_tz = Some 0\<rparr>),
           (''Sun, 31 Dec 2023 23:59:59 -0100'',
            \<lparr>tm_year = 2023, tm_mon = 12, tm_mday = 31, tm_hour = 23, tm_min = 59, tm_sec = 59,
             tm_tz = Some (- 3600)\<rparr>),
           (''Fri, 15 Mar 2024 10:00:00'',
            \<lparr>tm_year = 2024, tm_mon = 3, tm_mday = 15, tm_hour = 10, tm_min = 0, tm_sec = 0,
             tm_tz = None\<rparr>)],
      time_mktime = timegm,
      parseaddr =
        (\<lambda>s. if s = ''A@X.COM'' then ([], ''A@X.COM'')
             else if s = ''Bob <Bob@X.COM>'' then (''Bob'', ''Bob@X.COM'')
             else if s = ''c@z.org'' then ([], ''c@z.org'')
             else ([], [])),
      getaddresses =
        (\<lambda>vs. if vs = [''b@y.com''] then [([], ''b@y.com'')]
              else if vs = [''b@y.com'', ''c@z.org, B@Y.com'']
                then [([], ''b@y.com''), ([], ''c@z.org''), ([], ''B@Y.com'')]
              else []),
      header_str =
        (\<lambda>h. concat (map (\<lambda>c. if digit7 c then [CHR 0xEF, CHR 0xBF, CHR 0xBD] else [c]) h)),
      strftime_pads_year = False,
      mbox_read_back = (\<lambda>b. b)\<rparr>"

text \<open>The archive object after \<^verbatim>\<open>__enter__\<close> on an empty directory, and that directory.\<close>

definition a0 :: archive where
  "a0 = \<lparr>boxes = [], seen = {}\<rparr>"

definition w0 :: world where
  "w0 = \<lparr>files = [], heap = []\<rparr>"

text \<open>The archive after \<open>msg_march\<close> was added to the empty one.\<close>

definition a_march :: archive where
  "a_march = \<lparr>boxes = [(''202403'', 0)], seen = {''3db7d6c8be34e87aeacb5c5e3cf5d082''}\<rparr>"

definition w_march :: world where
  "w_march =
     \<lparr>files = [(''202403'', \<lparr>messages = [msg_march], pickled = None\<rparr>)],
      heap = [\<lparr>mbox_path = ''202403'', mbox_closed = False\<rparr>]\<rparr>"

text \<open>The archive after \<open>msg_newyear\<close> was added as well, and both worlds after
  \<^verbatim>\<open>__exit__\<close>.\<close>

definition a_two :: archive where
  "a_two =
     \<lparr>boxes = [(''202403'', 0), (''202401'', 1)],
      seen = {''3db7d6c8be34e87aeacb5c5e3cf5d082'', ''8e7e81b044c9f6500024d1669f2590a9''}\<rparr>"

definition w_two :: world where
  "w_two =
     \<lparr>files = [(''202403'', \<lparr>messages = [msg_march], pickled = None\<rparr>),
               (''202401'', \<lparr>messages = [msg_newyear], pickled = None\<rparr>)],
      heap = [\<lparr>mbox_path = ''202403'', mbox_closed = False\<rparr>,
              \<lparr>mbox_path = ''202401'', mbox_closed = False\<rparr>]\<rparr>"

definition w_two_closed :: world where
  "w_two_closed =
     \<lparr>files = [(''202403'', \<lparr>messages = [msg_march], pickled = None\<rparr>),
               (''202401'', \<lparr>messages = [msg_newyear], pickled = None\<rparr>),
               (''seen.pickle'',
                \<lparr>messages = [],
                 pickled = Some {''3db7d6c8be34e87aeacb5c5e3cf5d082'',
                                 ''8e7e81b044c9f6500024d1669f2590a9''}\<rparr>)],
      heap = [\<lparr>mbox_path = ''202403'', mbox_closed = True\<rparr>,
              \<lparr>mbox_path = ''202401'', mbox_closed = True\<rparr>]\<rparr>"

definition w_march_closed :: world where
  "w_march_closed =
     \<lparr>files = [(''202403'', \<lparr>messages = [msg_march], pickled = None\<rparr>),
               (''seen.pickle'',
                \<lparr>messages = [], pickled = Some {''3db7d6c8be34e87aeacb5c5e3cf5d082''}\<rparr>)],
      heap = [\<lparr>mbox_path = ''202403'', mbox_closed = True\<rparr>]\<rparr>"

text \<open>
  A directory that holds, next to partition 202403 and the ledger, a copy of a partition
  under the name 202401.bak and a file of notes; and a closed archive of three messages
  in 202403, one of them with an empty From header and one without a From header, and of
  a message of a mailing list in 202401; and a directory whose partition 202403 holds a
  message with a From header and no Date header between two messages that have both.
\<close>

definition w_bak :: world where
  "w_bak =
     \<lparr>files = [(''202401.bak'', \<lparr>messages = [msg_newyear], pickled = None\<rparr>),
               (''notes.txt'', \<lparr>messages = [msg_export], pickled = None\<rparr>),
               (''seen.pickle'',
                \<lparr>messages = [], pickled = Some {''3db7d6c8be34e87aeacb5c5e3cf5d082''}\<rparr>),
               (''202403'', \<lparr>messages = [msg_march], pickled = None\<rparr>)],
      heap = []\<rparr>"

definition w_no_date :: world where
  "w_no_date =
     \<lparr>files = [(''202403'', \<lparr>messages = [msg_export, msg_from_only, msg_list], pickled = None\<rparr>)],
      heap = []\<rparr>"

definition w_export :: world where
  "w_export =
     \<lparr>files = [(''202403'', \<lparr>messages = [msg_empty_from, msg_export, msg_march], pickled = None\<rparr>),
               (''seen.pickle'',
                \<lparr>messages = [],
                 pickled = Some {''68c01b2853d4b343fc414f5369d216a5'',
                                 ''9d3820f004042d1a57739fb0233ba2c7'',
                                 ''3db7d6c8be34e87aeacb5c5e3cf5d082'',
                                 ''fd7545794216766e82f94e762065afab''}\<rparr>),
               (''202401'', \<lparr>messages = [msg_list], pickled = None\<rparr>)],
      heap = []\<rparr>"

section \<open>Properties\<close>

subsection \<open>Unfolding the definitions on concrete values\<close>

lemmas sample_defs = sample_lib_def msg_undated_def msg_march_def msg_newyear_def msg_nozone_def
  msg_export_def msg_empty_from_def msg_list_def msg_bad_byte_def msg_from_only_def a0_def w0_def
  a_march_def w_march_def a_two_def w_two_def w_two_closed_def w_march_closed_def w_bak_def
  w_export_def w_no_date_def

lemmas msg_defs = msg_get_def msg_get_all_def msg_contains_def sanitize_header_def hstr_def
  str_lower_def lower_char_def

lemmas date_defs = parsedate_tz_def mktime_tz_def timegm_def ymd2ord_def days_before_year_def
  days_before_month_def is_leap_def DAYS_BEFORE_MONTH_def DAYS_IN_MONTH_def utcfromtimestamp_def
  ord2ymd_def Let_def partition_name_def fmt_0d_def str_int_def str_nat.simps digit_char_def
  strftime_def

lemmas box_defs = get_box_by_timestamp_def get_box_by_name_def open_box_def mbox_add_def
  as_stored_def box_messages_def file_messages_def cache_ok_def

subsection \<open>\<^verbatim>\<open>add\<close>: duplicates and undated messages\<close>

lemma add_seen:
  "md5_hexdigest L (as_bytes msg) \<in> seen a \<Longrightarrow>
     MailArchive_add L msg a w = (Inl DuplicateError, a, w)"
  by (simp add: MailArchive_add_def)

lemma first_add_march: "MailArchive_add sample_lib msg_march a0 w0 = (Inr (), a_march, w_march)"
  by (simp add: MailArchive_add_def sample_defs msg_defs date_defs box_defs)

text \<open>What \<^verbatim>\<open>parsedate_tz\<close> returns has a zone, so the steps after it can only fail
  with \<^verbatim>\<open>ValueError\<close>.\<close>

lemma parsedate_tz_zone: "parsedate_tz L d = Some tt \<Longrightarrow> \<exists>z. tm_tz tt = Some z"
  by (auto simp: parsedate_tz_def split: option.splits if_splits)

lemma timegm_error: "timegm tt = Inl e \<Longrightarrow> e = ValueError"
  by (auto simp: timegm_def Let_def split: if_splits)

lemma mktime_tz_error: "tm_tz tt = Some z \<Longrightarrow> mktime_tz L tt = Inl e \<Longrightarrow> e = ValueError"
  by (auto simp: mktime_tz_def split: sum.splits dest: timegm_error)

lemma utcfromtimestamp_error: "utcfromtimestamp t = Inl e \<Longrightarrow> e = ValueError"
  by (auto simp: utcfromtimestamp_def Let_def split: if_splits prod.splits)

text \<open>
  \<^verbatim>\<open>add\<close> in three steps: the ledger, the date, the mailbox.
\<close>

lemma add_unfold:
  "MailArchive_add L msg a w =
     (if md5_hexdigest L (as_bytes msg) \<in> seen a then (Inl DuplicateError, a, w)
      else
        (case add_timestamp L msg of
           Inl e \<Rightarrow> (Inl e, a\<lparr>seen := seen a \<union> {md5_hexdigest L (as_bytes msg)}\<rparr>, w)
         | Inr dt \<Rightarrow>
             (case get_box_by_name (partition_name dt)
                     (a\<lparr>seen := seen a \<union> {md5_hexdigest L (as_bytes msg)}\<rparr>) w of
                (h, a2, w2) \<Rightarrow> (Inr (), a2, mbox_add L h msg w2))))"
  by (simp add: MailArchive_add_def add_timestamp_def Let_def get_box_by_timestamp_def
      split: option.splits hvalue.splits sum.splits)

lemma add_timestamp_undated: "undated L msg \<Longrightarrow> add_timestamp L msg = Inl UndatedError"
  by (auto simp: undated_def add_timestamp_def split: option.splits hvalue.splits)

lemma add_timestamp_header:
  "msg_get msg ''Date'' = Some (Header h) \<Longrightarrow> add_timestamp L msg = Inl AttributeError"
  by (simp add: add_timestamp_def)

lemma add_timestamp_dated:
  assumes "add_timestamp L msg = Inr dt"
  shows "\<exists>d tt t. msg_get msg ''Date'' = Some (Str d) \<and> d \<noteq> [] \<and> parsedate_tz L d = Some tt \<and>
           mktime_tz L tt = Inr t \<and> utcfromtimestamp t = Inr dt"
proof (cases "msg_get msg ''Date''")
  case None
  then show ?thesis using assms by (simp add: add_timestamp_def)
next
  case (Some v)
  show ?thesis
  proof (cases v)
    case (Header h)
    then show ?thesis using assms Some by (simp add: add_timestamp_def)
  next
    case (Str d)
    then show ?thesis
      using assms Some
      by (auto simp: add_timestamp_def split: if_splits option.splits sum.splits)
  qed
qed

lemma add_timestamp_error:
  assumes "add_timestamp L msg = Inl e"
  shows "(e = UndatedError \<and> undated L msg) \<or>
         (e = AttributeError \<and> (\<exists>h. msg_get msg ''Date'' = Some (Header h))) \<or>
         (e = ValueError \<and> \<not> undated L msg)"
proof (cases "msg_get msg ''Date''")
  case None
  then show ?thesis using assms by (simp add: add_timestamp_def undated_def)
next
  case (Some v)
  show ?thesis
  proof (cases v)
    case (Header h)
    then show ?thesis using assms Some by (simp add: add_timestamp_def)
  next
    case (Str d)
    show ?thesis
    proof (cases "d = [] \<or> parsedate_tz L d = None")
      case True
      then show ?thesis
        using assms Some Str by (auto simp: add_timestamp_def undated_def split: if_splits)
    next
      case False
      then obtain tt where tt: "d \<noteq> []" "parsedate_tz L d = Some tt" by auto
      obtain z where z: "tm_tz tt = Some z" using parsedate_tz_zone [OF tt(2)] by blast
      have u: "\<not> undated L msg" using Some Str tt by (simp add: undated_def)
      show ?thesis
      proof (cases "mktime_tz L tt")
        case (Inl x)
        then have "x = ValueError" using mktime_tz_error [OF z] by simp
        then show ?thesis using assms Some Str tt Inl u by (simp add: add_timestamp_def)
      next
        case (Inr t)
        then have "utcfromtimestamp t = Inl e"
          using assms Some Str tt by (simp add: add_timestamp_def)
        then have "e = ValueError" by (rule utcfromtimestamp_error)
        then show ?thesis using u by simp
      qed
    qed
  qed
qed

lemma add_undated:
  "md5_hexdigest L (as_bytes msg) \<notin> seen a \<Longrightarrow> undated L msg \<Longrightarrow>
   MailArchive_add L msg a w =
     (Inl UndatedError, a\<lparr>seen := seen a \<union> {md5_hexdigest L (as_bytes msg)}\<rparr>, w)"
  by (simp add: add_unfold add_timestamp_undated)

lemma add_header_date:
  "md5_hexdigest L (as_bytes msg) \<notin> seen a \<Longrightarrow> msg_get msg ''Date'' = Some (Header h) \<Longrightarrow>
   MailArchive_add L msg a w =
     (Inl AttributeError, a\<lparr>seen := seen a \<union> {md5_hexdigest L (as_bytes msg)}\<rparr>, w)"
  by (simp add: add_unfold add_timestamp_header)


text \<open>
  C1. A message whose fingerprint is in the ledger: \<^verbatim>\<open>add\<close> raises
  \<^verbatim>\<open>DuplicateError\<close>, and the archive object (ledger set and handle cache) and the
  world (every file's contents, every handle) are returned as they were.
\<close>

theorem add_duplicate_no_change:
  "md5_hexdigest L (as_bytes msg) \<in> seen a \<Longrightarrow>
     MailArchive_add L msg a w = (Inl DuplicateError, a, w)"
  by (rule add_seen)

text \<open>The message stored in March 2024 is added a second time.\<close>

theorem add_duplicate_no_change_witness:
  "md5_hexdigest sample_lib (as_bytes msg_march) \<in> seen a_march \<and>
   MailArchive_add sample_lib msg_march a_march w_march = (Inl DuplicateError, a_march, w_march)"
proof -
  have h: "md5_hexdigest sample_lib (as_bytes msg_march) \<in> seen a_march"
    by (simp add: sample_defs)
  show ?thesis
    using h add_duplicate_no_change [OF h, of w_march] by simp
qed

text \<open>
  A message that is not in the ledger and whose Date header is absent, empty or a
  string the parser returns nothing for: \<^verbatim>\<open>add\<close> raises \<^verbatim>\<open>UndatedError\<close>
  and leaves the world as it was, so the message is in no partition; the handle cache is
  unchanged and the ledger has gained the fingerprint, so that adding any message of the
  same bytes to the resulting archive raises \<^verbatim>\<open>DuplicateError\<close>.
\<close>

lemma add_undated_then_duplicate:
  "md5_hexdigest L (as_bytes msg) \<notin> seen a \<Longrightarrow> undated L msg \<Longrightarrow> as_bytes msg' = as_bytes msg \<Longrightarrow>
   (\<exists>a'. MailArchive_add L msg a w = (Inl UndatedError, a', w) \<and>
         seen a' = insert (md5_hexdigest L (as_bytes msg)) (seen a) \<and> boxes a' = boxes a \<and>
         MailArchive_add L msg' a' w = (Inl DuplicateError, a', w))"
  by (simp add: add_undated add_seen)

lemma add_undated_sample:
  "MailArchive_add sample_lib msg_undated a0 w0 =
     (Inl UndatedError, \<lparr>boxes = [], seen = {''a9bea4cb90746ceb3e88eca34d7d93b1''}\<rparr>, w0)"
  by (simp add: MailArchive_add_def sample_defs msg_defs)

lemma keys_bad_byte:
  "process_keys sample_lib [Inr msg_bad_byte, Inr msg_march] (0, 0, 0) a0 w0 =
     (Inl AttributeError, \<lparr>boxes = [], seen = {''ca4dfbaa81ed081c4dc5b9bd8ed20fcb''}\<rparr>, w0)"
  by (simp add: read_and_add_def MailArchive_add_def sample_defs msg_defs)

text \<open>
  C2 at a message that is not in the ledger and whose Date header cannot be parsed: its
  value is \<^verbatim>\<open>garbage\<close> with the byte E2 in the place of the first
  \<^verbatim>\<open>a\<close>. The message hands out the value as a \<^verbatim>\<open>Header\<close> object, and \<^verbatim>\<open>add\<close> raises \<^verbatim>\<open>AttributeError\<close>
  where the statement and the docstring of \<^verbatim>\<open>add\<close> ask for
  \<^verbatim>\<open>UndatedError\<close>. The rest is as stated: nothing is stored, the ledger has
  gained the fingerprint, and adding the message again raises
  \<^verbatim>\<open>DuplicateError\<close>. The loop of \<^verbatim>\<open>process\<close>, which counts an
  \<^verbatim>\<open>UndatedError\<close> and goes on, ends at this message with the
  \<^verbatim>\<open>AttributeError\<close>, and the message after it is not read.
\<close>

theorem add_bad_byte_date_attribute_error:
  "md5_hexdigest sample_lib (as_bytes msg_bad_byte) \<notin> seen a0 \<and>
   msg_get msg_bad_byte ''Date'' = Some (Header (''g'' @ [CHR 0xE2] @ ''rbage'')) \<and>
   MailArchive_add sample_lib msg_bad_byte a0 w0 =
     (Inl AttributeError, \<lparr>boxes = [], seen = {''ca4dfbaa81ed081c4dc5b9bd8ed20fcb''}\<rparr>, w0) \<and>
   MailArchive_add sample_lib msg_bad_byte
       \<lparr>boxes = [], seen = {''ca4dfbaa81ed081c4dc5b9bd8ed20fcb''}\<rparr> w0 =
     (Inl DuplicateError, \<lparr>boxes = [], seen = {''ca4dfbaa81ed081c4dc5b9bd8ed20fcb''}\<rparr>, w0) \<and>
   process_keys sample_lib [Inr msg_bad_byte, Inr msg_march] (0, 0, 0) a0 w0 =
     (Inl AttributeError, \<lparr>boxes = [], seen = {''ca4dfbaa81ed081c4dc5b9bd8ed20fcb''}\<rparr>, w0)"
  unfolding keys_bad_byte
  by (simp add: MailArchive_add_def sample_defs msg_defs)

subsection \<open>The handle cache\<close>

lemma list_all_update: "list_all P al \<Longrightarrow> P (k, v) \<Longrightarrow> list_all P (AList.update k v al)"
  by (induct al) auto

lemma open_box_facts:
  assumes "open_box name a w = (h, a', w')"
  shows "h = length (heap w)"
    and "heap w' = heap w @ [\<lparr>mbox_path = name, mbox_closed = False\<rparr>]"
    and "seen a' = seen a"
    and "boxes a' = AList.update name h (boxes a)"
    and "file_messages w' n = file_messages w n"
    and "map_of (files w') name \<noteq> None"
    and "map_of (files w) n \<noteq> None \<Longrightarrow> map_of (files w') n = map_of (files w) n"
    and "map_of (files w) name \<noteq> None \<Longrightarrow> files w' = files w"
  using assms
  by (auto simp: open_box_def Let_def file_messages_def map_add_def split: option.splits if_splits)

lemma open_box_cache_ok:
  assumes "open_box name a w = (h, a', w')" and "cache_ok a w"
  shows "cache_ok a' w'"
proof -
  have hp: "heap w' = heap w @ [\<lparr>mbox_path = name, mbox_closed = False\<rparr>]"
    and h: "h = length (heap w)" and b: "boxes a' = AList.update name h (boxes a)"
    using open_box_facts [OF assms(1)] by auto
  have "list_all (\<lambda>nh. snd nh < length (heap w') \<and> mbox_path (heap w' ! snd nh) = fst nh) (boxes a)"
    using assms(2) unfolding cache_ok_def hp
    by (auto simp: list_all_iff nth_append)
  then show ?thesis
    unfolding cache_ok_def b by (rule list_all_update) (simp add: hp h)
qed

lemma cache_ok_lookup:
  "cache_ok a w \<Longrightarrow> map_of (boxes a) name = Some h \<Longrightarrow>
     h < length (heap w) \<and> mbox_path (heap w ! h) = name"
  by (auto simp: cache_ok_def list_all_iff dest!: map_of_SomeD)

lemma get_box_by_name_cases:
  assumes "get_box_by_name name a w = (h, a', w')"
  obtains (cached) "map_of (boxes a) name = Some h" "box_messages w h \<noteq> []" "a' = a" "w' = w"
    | (opened) "open_box name a w = (h, a', w')"
proof (cases "map_of (boxes a) name")
  case None
  then have "open_box name a w = (h, a', w')"
    using assms by (simp add: get_box_by_name_def)
  then show ?thesis by (rule opened)
next
  case (Some hc)
  show ?thesis
  proof (cases "box_messages w hc = []")
    case True
    then have "open_box name a w = (h, a', w')"
      using assms Some by (simp add: get_box_by_name_def)
    then show ?thesis by (rule opened)
  next
    case False
    then have "hc = h" "a' = a" "w' = w"
      using assms Some by (simp_all add: get_box_by_name_def)
    then show ?thesis using Some False by (intro cached) simp_all
  qed
qed

lemma get_box_by_name_facts:
  assumes "get_box_by_name name a w = (h, a', w')" and "cache_ok a w"
  shows "h < length (heap w')"
    and "mbox_path (heap w' ! h) = name"
    and "cache_ok a' w'"
    and "seen a' = seen a"
    and "file_messages w' n = file_messages w n"
    and "map_of (files w') name \<noteq> None"
proof -
  have "h < length (heap w') \<and> mbox_path (heap w' ! h) = name \<and> cache_ok a' w' \<and>
      seen a' = seen a \<and> file_messages w' n = file_messages w n \<and> map_of (files w') name \<noteq> None"
    using assms(1)
  proof (cases rule: get_box_by_name_cases)
    case cached
    have 1: "h < length (heap w) \<and> mbox_path (heap w ! h) = name"
      using cache_ok_lookup [OF assms(2) cached(1)] .
    have "file_messages w name \<noteq> []"
      using cached(2) 1 by (simp add: box_messages_def)
    then have "map_of (files w) name \<noteq> None"
      by (auto simp: file_messages_def split: option.splits)
    then show ?thesis using cached 1 assms(2) by simp
  next
    case opened
    show ?thesis
      using open_box_facts [OF opened] open_box_cache_ok [OF opened assms(2)]
      by (simp add: nth_append)
  qed
  then show "h < length (heap w')" "mbox_path (heap w' ! h) = name" "cache_ok a' w'"
    "seen a' = seen a" "file_messages w' n = file_messages w n" "map_of (files w') name \<noteq> None"
    by simp_all
qed

lemma map_fst_map_entry: "map fst (AList.map_entry k f al) = map fst al"
  by (induct al) auto

lemma mbox_add_facts:
  assumes "h < length (heap w)" and "mbox_path (heap w ! h) = name"
  shows "heap (mbox_add L h msg w) = heap w"
    and "map_of (files w) name \<noteq> None \<Longrightarrow>
           file_messages (mbox_add L h msg w) name = file_messages w name @ [as_stored L msg]"
    and "n \<noteq> name \<Longrightarrow> file_messages (mbox_add L h msg w) n = file_messages w n"
    and "map fst (files (mbox_add L h msg w)) = map fst (files w)"
  using assms
  by (auto simp: mbox_add_def file_messages_def map_of_map_entry map_fst_map_entry split: option.splits)

subsection \<open>\<^verbatim>\<open>add\<close>: the partition of a dated message\<close>

lemma add_error_state:
  assumes "MailArchive_add L msg a w = (Inl e, a', w')"
  shows "w' = w \<and> boxes a' = boxes a"
proof (cases "md5_hexdigest L (as_bytes msg) \<in> seen a")
  case True
  then show ?thesis using assms by (simp add: add_unfold)
next
  case fresh: False
  show ?thesis
  proof (cases "add_timestamp L msg")
    case (Inl x)
    then show ?thesis using assms fresh by (auto simp: add_unfold)
  next
    case (Inr dt)
    then show ?thesis using assms fresh by (simp add: add_unfold split: prod.splits)
  qed
qed

lemma add_success:
  assumes "MailArchive_add L msg a w = (Inr (), a', w')"
  shows "\<exists>d tt t dt h w2. md5_hexdigest L (as_bytes msg) \<notin> seen a \<and>
           msg_get msg ''Date'' = Some (Str d) \<and> d \<noteq> [] \<and> parsedate_tz L d = Some tt \<and>
           mktime_tz L tt = Inr t \<and> utcfromtimestamp t = Inr dt \<and>
           get_box_by_name (partition_name dt)
             (a\<lparr>seen := seen a \<union> {md5_hexdigest L (as_bytes msg)}\<rparr>) w = (h, a', w2) \<and>
           w' = mbox_add L h msg w2"
proof (cases "md5_hexdigest L (as_bytes msg) \<in> seen a")
  case True
  then show ?thesis using assms by (simp add: add_unfold)
next
  case fresh: False
  show ?thesis
  proof (cases "add_timestamp L msg")
    case (Inl x)
    then show ?thesis using assms fresh by (simp add: add_unfold)
  next
    case (Inr dt)
    obtain h a2 w2 where g: "get_box_by_name (partition_name dt)
        (a\<lparr>seen := seen a \<union> {md5_hexdigest L (as_bytes msg)}\<rparr>) w = (h, a2, w2)"
      by (metis prod_cases3)
    have "a' = a2" "w' = mbox_add L h msg w2"
      using assms fresh Inr g by (simp_all add: add_unfold)
    then show ?thesis
      using fresh g add_timestamp_dated [OF Inr] by blast
  qed
qed

lemma cache_ok_seen [simp]: "cache_ok (a\<lparr>seen := s\<rparr>) w = cache_ok a w"
  by (simp add: cache_ok_def)

lemma add_stores:
  assumes ok: "cache_ok a w" and add: "MailArchive_add L msg a w = (Inr (), a', w')"
  shows "\<exists>d tt t dt. msg_get msg ''Date'' = Some (Str d) \<and> parsedate_tz L d = Some tt \<and>
        mktime_tz L tt = Inr t \<and> utcfromtimestamp t = Inr dt \<and>
        file_messages w' (partition_name dt) =
          file_messages w (partition_name dt) @ [as_stored L msg] \<and>
        (\<forall>n. n \<noteq> partition_name dt \<longrightarrow> file_messages w' n = file_messages w n) \<and>
        cache_ok a' w'"
proof -
  from add_success [OF add] obtain d tt t dt h w2 where
    d: "msg_get msg ''Date'' = Some (Str d)" "parsedate_tz L d = Some tt" "mktime_tz L tt = Inr t"
      "utcfromtimestamp t = Inr dt"
    and g: "get_box_by_name (partition_name dt)
              (a\<lparr>seen := seen a \<union> {md5_hexdigest L (as_bytes msg)}\<rparr>) w = (h, a', w2)"
    and w': "w' = mbox_add L h msg w2"
    by blast
  have ok1: "cache_ok (a\<lparr>seen := seen a \<union> {md5_hexdigest L (as_bytes msg)}\<rparr>) w"
    using ok by simp
  note gf = get_box_by_name_facts [OF g ok1]
  have "file_messages w' (partition_name dt) =
      file_messages w (partition_name dt) @ [as_stored L msg]"
    unfolding w' using mbox_add_facts(2) [OF gf(1) gf(2) gf(6)] gf(5) by simp
  moreover have "\<forall>n. n \<noteq> partition_name dt \<longrightarrow> file_messages w' n = file_messages w n"
    unfolding w' using mbox_add_facts(3) [OF gf(1) gf(2)] gf(5) by simp
  moreover have "cache_ok a' w'"
    using gf(3) mbox_add_facts(1) [OF gf(1) gf(2), of L msg] unfolding w' cache_ok_def by simp
  ultimately show ?thesis
    using d by blast
qed

text \<open>The invariant of the cache is kept by \<^verbatim>\<open>add\<close>.\<close>

lemma add_cache_ok:
  assumes "cache_ok a w" and "MailArchive_add L msg a w = (r, a', w')"
  shows "cache_ok a' w'"
proof (cases r)
  case (Inl e)
  then have "w' = w \<and> boxes a' = boxes a"
    using add_error_state assms(2) by blast
  then show ?thesis using assms(1) by (simp add: cache_ok_def)
next
  case (Inr u)
  then show ?thesis using add_stores [OF assms(1)] assms(2) by auto
qed

text \<open>
  What \<^verbatim>\<open>add\<close> stores can be dated by \<^verbatim>\<open>export\<close>: if every message of an entry
  has a Date that converts to a UTC date, so has every message of the entry afterwards.
\<close>

lemma msg_get_as_stored [simp]: "msg_get (as_stored L msg) name = msg_get msg name"
  by (simp add: msg_get_def as_stored_def)

lemma export_timestamp_as_stored [simp]:
  "export_timestamp L (as_stored L msg) = export_timestamp L msg"
  by (simp add: export_timestamp_def)

lemma add_keeps_dated:
  assumes "cache_ok a w" and "MailArchive_add L msg a w = (r, a', w')"
    and "\<forall>m \<in> set (file_messages w n). dated L m"
  shows "\<forall>m \<in> set (file_messages w' n). dated L m"
proof (cases r)
  case (Inl e)
  then have "w' = w"
    using add_error_state assms(2) by blast
  then show ?thesis using assms(3) by simp
next
  case (Inr u)
  then have add: "MailArchive_add L msg a w = (Inr (), a', w')"
    using assms(2) by simp
  from add_stores [OF assms(1) add] obtain d tt t dt where
    d: "msg_get msg ''Date'' = Some (Str d)" "parsedate_tz L d = Some tt" "mktime_tz L tt = Inr t"
      "utcfromtimestamp t = Inr dt"
    and f: "file_messages w' (partition_name dt) =
        file_messages w (partition_name dt) @ [as_stored L msg]"
      "\<forall>n. n \<noteq> partition_name dt \<longrightarrow> file_messages w' n = file_messages w n"
    by blast
  have "export_timestamp L msg = Inr dt"
    using d by (simp add: export_timestamp_def)
  then have "dated L (as_stored L msg)"
    by (simp add: dated_def)
  then show ?thesis
    using assms(3) f by (cases "n = partition_name dt") auto
qed

lemma utc_example_march:
  "\<exists>t dt. mktime_tz L \<lparr>tm_year = 2024, tm_mon = 3, tm_mday = 15, tm_hour = 10, tm_min = 0,
                          tm_sec = 0, tm_tz = Some 0\<rparr> = Inr t \<and>
        utcfromtimestamp t = Inr dt \<and> strftime L dt = ''2024-03-15 10:00:00'' \<and>
        partition_name dt = ''202403''"
  apply (rule exI [of _ 1710496800])
  apply (rule exI [of _ "\<lparr>dt_year = 2024, dt_month = 3, dt_day = 15, dt_hour = 10, dt_minute = 0, dt_second = 0\<rparr>"])
  apply (simp add: date_defs)
  done

lemma utc_example_newyear:
  "\<exists>t dt. mktime_tz L \<lparr>tm_year = 2023, tm_mon = 12, tm_mday = 31, tm_hour = 23, tm_min = 59,
                          tm_sec = 59, tm_tz = Some (- 1)\<rparr> = Inr t \<and>
        utcfromtimestamp t = Inr dt \<and> strftime L dt = ''2024-01-01 00:00:00'' \<and>
        partition_name dt = ''202401''"
  apply (rule exI [of _ 1704067200])
  apply (rule exI [of _ "\<lparr>dt_year = 2024, dt_month = 1, dt_day = 1, dt_hour = 0, dt_minute = 0, dt_second = 0\<rparr>"])
  apply (simp add: date_defs)
  done

text \<open>
  C3. A message that \<^verbatim>\<open>add\<close> stores, in an archive whose cached handles are
  those \<^verbatim>\<open>_get_box_by_name\<close> opened (\<open>cache_ok\<close>, which \<^verbatim>\<open>__enter__\<close>
  establishes and \<^verbatim>\<open>add\<close> keeps): its Date header parses, the parsed time
  converts to a timestamp and that to a UTC date, and the message is appended, in the
  form the mailbox library writes it, to the partition named
  \<^verbatim>\<open>"%04d%02d" % (year, month)\<close> of that UTC date and to no other entry. With any library, the time 2024-03-15 10:00:00 at offset 0 is the UTC date
  2024-03-15 10:00:00 and gives partition 202403, and the time 2023-12-31 23:59:59 at an
  offset of minus one second is the UTC date 2024-01-01 00:00:00 and gives partition
  202401.
\<close>

theorem add_partition_is_utc_month:
  "cache_ok a w \<Longrightarrow> MailArchive_add L msg a w = (Inr (), a', w') \<Longrightarrow>
   (\<exists>d tt t dt. msg_get msg ''Date'' = Some (Str d) \<and> parsedate_tz L d = Some tt \<and>
        mktime_tz L tt = Inr t \<and> utcfromtimestamp t = Inr dt \<and>
        file_messages w' (partition_name dt) =
          file_messages w (partition_name dt) @ [as_stored L msg] \<and>
        (\<forall>n. n \<noteq> partition_name dt \<longrightarrow> file_messages w' n = file_messages w n)) \<and>
   (\<exists>t dt. mktime_tz L \<lparr>tm_year = 2024, tm_mon = 3, tm_mday = 15, tm_hour = 10, tm_min = 0,
                          tm_sec = 0, tm_tz = Some 0\<rparr> = Inr t \<and>
        utcfromtimestamp t = Inr dt \<and> strftime L dt = ''2024-03-15 10:00:00'' \<and>
        partition_name dt = ''202403'') \<and>
   (\<exists>t dt. mktime_tz L \<lparr>tm_year = 2023, tm_mon = 12, tm_mday = 31, tm_hour = 23, tm_min = 59,
                          tm_sec = 59, tm_tz = Some (- 1)\<rparr> = Inr t \<and>
        utcfromtimestamp t = Inr dt \<and> strftime L dt = ''2024-01-01 00:00:00'' \<and>
        partition_name dt = ''202401'')"
proof (intro conjI)
  assume ok: "cache_ok a w" and add: "MailArchive_add L msg a w = (Inr (), a', w')"
  from add_stores [OF ok add]
  show "\<exists>d tt t dt. msg_get msg ''Date'' = Some (Str d) \<and> parsedate_tz L d = Some tt \<and>
        mktime_tz L tt = Inr t \<and> utcfromtimestamp t = Inr dt \<and>
        file_messages w' (partition_name dt) =
          file_messages w (partition_name dt) @ [as_stored L msg] \<and>
        (\<forall>n. n \<noteq> partition_name dt \<longrightarrow> file_messages w' n = file_messages w n)"
    by blast
qed (rule utc_example_march, rule utc_example_newyear)

text \<open>
  A message dated \<^verbatim>\<open>Sun, 31 Dec 2023 23:59:59 -0100\<close> is added to the archive that
  holds the message of March 2024: it is stored in 202401.
\<close>

theorem add_partition_is_utc_month_witness:
  "cache_ok a_march w_march \<and>
   fst (MailArchive_add sample_lib msg_newyear a_march w_march) = Inr () \<and>
   file_messages (snd (snd (MailArchive_add sample_lib msg_newyear a_march w_march))) ''202401'' =
     [msg_newyear] \<and>
   file_messages (snd (snd (MailArchive_add sample_lib msg_newyear a_march w_march))) ''202403'' =
     [msg_march] \<and>
   map fst (files (snd (snd (MailArchive_add sample_lib msg_newyear a_march w_march)))) =
     [''202403'', ''202401'']"
proof -
  let ?r = "MailArchive_add sample_lib msg_newyear a_march w_march"
  have h1: "cache_ok a_march w_march"
    by (simp add: cache_ok_def sample_defs)
  have ev: "?r =
      (Inr (),
       \<lparr>boxes = [(''202403'', 0), (''202401'', 1)],
        seen = {''3db7d6c8be34e87aeacb5c5e3cf5d082'', ''8e7e81b044c9f6500024d1669f2590a9''}\<rparr>,
       \<lparr>files = [(''202403'', \<lparr>messages = [msg_march], pickled = None\<rparr>),
                 (''202401'', \<lparr>messages = [msg_newyear], pickled = None\<rparr>)],
        heap = [\<lparr>mbox_path = ''202403'', mbox_closed = False\<rparr>,
                \<lparr>mbox_path = ''202401'', mbox_closed = False\<rparr>]\<rparr>)"
    by (simp add: MailArchive_add_def sample_defs msg_defs date_defs box_defs insert_commute)
  have h2: "?r = (Inr (), fst (snd ?r), snd (snd ?r))"
    by (simp add: ev)
  from add_partition_is_utc_month [OF h1 h2] h1 show ?thesis
    by (simp add: ev file_messages_def)
qed

subsection \<open>\<^verbatim>\<open>add\<close>: when \<^verbatim>\<open>UndatedError\<close> is raised\<close>





subsection \<open>The ledger only grows\<close>

lemma get_box_by_name_seen:
  "get_box_by_name name a w = (h, a', w') \<Longrightarrow> seen a' = seen a"
  by (erule get_box_by_name_cases) (simp_all add: open_box_facts)

lemma add_seen_after:
  assumes "MailArchive_add L msg a w = (r, a', w')"
  shows "seen a' = insert (md5_hexdigest L (as_bytes msg)) (seen a)"
proof (cases "md5_hexdigest L (as_bytes msg) \<in> seen a")
  case True
  then show ?thesis using assms by (auto simp: add_seen)
next
  case fresh: False
  show ?thesis
  proof (cases "add_timestamp L msg")
    case (Inl e)
    then show ?thesis using assms fresh by (auto simp: add_unfold)
  next
    case (Inr dt)
    obtain h a2 w2 where g: "get_box_by_name (partition_name dt)
        (a\<lparr>seen := seen a \<union> {md5_hexdigest L (as_bytes msg)}\<rparr>) w = (h, a2, w2)"
      by (metis prod_cases3)
    have "a' = a2"
      using assms fresh Inr g by (simp add: add_unfold)
    then show ?thesis using get_box_by_name_seen [OF g] by simp
  qed
qed

lemma read_and_add_seen:
  "read_and_add L r a w = (out, a', w') \<Longrightarrow> seen a \<subseteq> seen a'"
  by (cases r) (auto simp: read_and_add_def dest: add_seen_after)

lemma process_keys_Cons:
  assumes "read_and_add L r a w = (out, a1, w1)"
  shows "process_keys L (r # rs) (ok, dup, err) a w =
    (if out = Inr () then process_keys L rs (ok + 1, dup, err) a1 w1
     else if out = Inl KeyError then process_keys L rs (ok, dup, err) a1 w1
     else if out = Inl UnicodeDecodeError \<or> out = Inl UndatedError
       then process_keys L rs (ok, dup, err + 1) a1 w1
     else if out = Inl DuplicateError then process_keys L rs (ok, dup + 1, err) a1 w1
     else (Inl (projl out), a1, w1))"
proof (cases out)
  case (Inl e)
  then show ?thesis using assms by (cases e) simp_all
next
  case (Inr u)
  then show ?thesis using assms by simp
qed

lemma process_keys_seen:
  "process_keys L rs c a w = (r, a', w') \<Longrightarrow> seen a \<subseteq> seen a'"
proof (induction rs arbitrary: c a w)
  case Nil
  then show ?case by simp
next
  case (Cons x rs)
  obtain ok dup err where c: "c = (ok, dup, err)" by (cases c) auto
  obtain out a1 w1 where ra: "read_and_add L x a w = (out, a1, w1)" by (metis prod_cases3)
  have s1: "seen a \<subseteq> seen a1" using read_and_add_seen [OF ra] .
  have "seen a1 \<subseteq> seen a'"
    using Cons.prems Cons.IH unfolding c process_keys_Cons [OF ra]
    by (auto split: if_splits)
  with s1 show ?case by blast
qed

text \<open>The ingestion loop keeps the invariant of the cache.\<close>

lemma process_keys_cache_ok:
  "cache_ok a w \<Longrightarrow> process_keys L rs c a w = (r, a', w') \<Longrightarrow> cache_ok a' w'"
proof (induction rs arbitrary: c a w)
  case Nil
  then show ?case by simp
next
  case (Cons x rs)
  obtain ok dup err where c: "c = (ok, dup, err)" by (cases c) auto
  obtain out a1 w1 where ra: "read_and_add L x a w = (out, a1, w1)" by (metis prod_cases3)
  have c1: "cache_ok a1 w1"
    using ra Cons.prems(1) by (cases x) (auto simp: read_and_add_def dest: add_cache_ok)
  show ?case
    using Cons.prems(2) Cons.IH [OF c1] c1 unfolding c process_keys_Cons [OF ra]
    by (auto split: if_splits)
qed

subsection \<open>Closing and reopening\<close>

lemma length_fold_close_box: "length (fold close_box hs hp) = length hp"
  by (induction hs arbitrary: hp) (simp_all add: close_box_def)

lemma fold_close_box_keeps:
  "h < length hp \<Longrightarrow> mbox_closed (hp ! h) \<Longrightarrow> mbox_closed (fold close_box hs hp ! h)"
proof (induction hs arbitrary: hp)
  case Nil
  then show ?case by simp
next
  case (Cons x hs)
  have "h < length (close_box x hp)" "mbox_closed (close_box x hp ! h)"
    using Cons.prems by (auto simp: close_box_def nth_list_update)
  then show ?case using Cons.IH by simp
qed

lemma fold_close_box_closes:
  "h \<in> set hs \<Longrightarrow> h < length hp \<Longrightarrow> mbox_closed (fold close_box hs hp ! h)"
proof (induction hs arbitrary: hp)
  case Nil
  then show ?case by simp
next
  case (Cons x hs)
  show ?case
  proof (cases "x = h")
    case True
    have "h < length (close_box x hp)" "mbox_closed (close_box x hp ! h)"
      using Cons.prems True by (auto simp: close_box_def)
    then show ?thesis using fold_close_box_keeps by simp
  next
    case False
    then have "h \<in> set hs" using Cons.prems by simp
    moreover have "h < length (close_box x hp)"
      using Cons.prems by (simp add: close_box_def)
    ultimately show ?thesis using Cons.IH by simp
  qed
qed

lemma exit_facts:
  assumes "MailArchive_exit a w = (b, w')"
  shows "b = False"
    and "map_of (files w') SEEN_FNAME = Some \<lparr>messages = [], pickled = Some (seen a)\<rparr>"
    and "length (heap w') = length (heap w)"
    and "n \<noteq> SEEN_FNAME \<Longrightarrow> map_of (files w') n = map_of (files w) n"
    and "h \<in> snd ` set (boxes a) \<Longrightarrow> h < length (heap w) \<Longrightarrow> mbox_closed (heap w' ! h)"
proof -
  show "b = False"
    and "map_of (files w') SEEN_FNAME = Some \<lparr>messages = [], pickled = Some (seen a)\<rparr>"
    and "length (heap w') = length (heap w)"
    and "n \<noteq> SEEN_FNAME \<Longrightarrow> map_of (files w') n = map_of (files w) n"
    using assms
    by (auto simp: MailArchive_exit_def update_conv' length_fold_close_box)
  assume "h \<in> snd ` set (boxes a)" and "h < length (heap w)"
  then have "mbox_closed (fold close_box (map snd (boxes a)) (heap w) ! h)"
    by (intro fold_close_box_closes) simp_all
  then show "mbox_closed (heap w' ! h)"
    using assms by (auto simp: MailArchive_exit_def)
qed

lemma exit_then_enter:
  "MailArchive_exit a w = (b, w') \<Longrightarrow> MailArchive_enter w' = Inr \<lparr>boxes = [], seen = seen a\<rparr>"
  by (simp add: MailArchive_enter_def exit_facts(2))

lemma add_empty_ledger:
  "fst (MailArchive_add L msg \<lparr>boxes = [], seen = {}\<rparr> w) \<noteq> Inl DuplicateError"
proof (cases "add_timestamp L msg")
  case (Inl e)
  then have "e \<noteq> DuplicateError"
    using add_timestamp_error [OF Inl] by auto
  then show ?thesis using Inl by (simp add: add_unfold)
next
  case (Inr dt)
  then show ?thesis by (simp add: add_unfold split: prod.splits)
qed

text \<open>
  C4. A message is added in a scope, with any outcome, and any further messages are
  read and added after it; the scope is closed and the archive is opened again: adding a
  message of the same bytes raises \<^verbatim>\<open>DuplicateError\<close> and changes nothing. And an
  archive directory without a ledger file is opened with the empty ledger, in which no
  message is a duplicate.
\<close>

theorem reopen_preserves_dedup:
  "(MailArchive_add L msg a w = (r, a1, w1) \<and> process_keys L later counts a1 w1 = (r2, a2, w2) \<and>
    MailArchive_exit a2 w2 = (b, w3) \<and> as_bytes msg' = as_bytes msg \<longrightarrow>
      (\<exists>a3. MailArchive_enter w3 = Inr a3 \<and> seen a3 = seen a2 \<and>
            MailArchive_add L msg' a3 w3 = (Inl DuplicateError, a3, w3))) \<and>
   (map_of (files w) SEEN_FNAME = None \<longrightarrow>
      MailArchive_enter w = Inr \<lparr>boxes = [], seen = {}\<rparr> \<and>
      fst (MailArchive_add L msg \<lparr>boxes = [], seen = {}\<rparr> w) \<noteq> Inl DuplicateError)"
proof (intro conjI impI)
  assume h: "MailArchive_add L msg a w = (r, a1, w1) \<and>
    process_keys L later counts a1 w1 = (r2, a2, w2) \<and>
    MailArchive_exit a2 w2 = (b, w3) \<and> as_bytes msg' = as_bytes msg"
  have "md5_hexdigest L (as_bytes msg) \<in> seen a1"
    using h add_seen_after [of L msg a w r a1 w1] by simp
  then have "md5_hexdigest L (as_bytes msg') \<in> seen a2"
    using h process_keys_seen [of L later counts a1 w1 r2 a2 w2] by auto
  moreover have "MailArchive_enter w3 = Inr \<lparr>boxes = [], seen = seen a2\<rparr>"
    using h exit_then_enter by blast
  ultimately show "\<exists>a3. MailArchive_enter w3 = Inr a3 \<and> seen a3 = seen a2 \<and>
            MailArchive_add L msg' a3 w3 = (Inl DuplicateError, a3, w3)"
    by (simp add: add_seen)
next
  assume "map_of (files w) SEEN_FNAME = None"
  then show "MailArchive_enter w = Inr \<lparr>boxes = [], seen = {}\<rparr>"
    by (simp add: MailArchive_enter_def)
next
  show "fst (MailArchive_add L msg \<lparr>boxes = [], seen = {}\<rparr> w) \<noteq> Inl DuplicateError"
    by (rule add_empty_ledger)
qed

lemma second_add_newyear:
  "MailArchive_add sample_lib msg_newyear a_march w_march = (Inr (), a_two, w_two)"
  by (simp add: MailArchive_add_def sample_defs msg_defs date_defs box_defs insert_commute)

lemma keys_newyear:
  "process_keys sample_lib [Inr msg_newyear] (1, 0, 0) a_march w_march = (Inr (2, 0, 0), a_two, w_two)"
  by (simp add: read_and_add_def second_add_newyear)

lemma exit_two: "MailArchive_exit a_two w_two = (False, w_two_closed)"
  by (simp add: MailArchive_exit_def sample_defs close_box_def SEEN_FNAME_def)

lemma enter_two_closed: "MailArchive_enter w_two_closed = Inr \<lparr>boxes = [], seen = seen a_two\<rparr>"
  by (simp add: MailArchive_enter_def sample_defs SEEN_FNAME_def)

text \<open>
  Two messages are added to the empty archive, the scope is closed, and the archive is
  opened again.
\<close>

theorem reopen_preserves_dedup_witness:
  "MailArchive_add sample_lib msg_march a0 w0 = (Inr (), a_march, w_march) \<and>
   process_keys sample_lib [Inr msg_newyear] (1, 0, 0) a_march w_march = (Inr (2, 0, 0), a_two, w_two) \<and>
   MailArchive_exit a_two w_two = (False, w_two_closed) \<and>
   MailArchive_enter w_two_closed = Inr \<lparr>boxes = [], seen = seen a_two\<rparr> \<and>
   MailArchive_add sample_lib msg_march \<lparr>boxes = [], seen = seen a_two\<rparr> w_two_closed =
     (Inl DuplicateError, \<lparr>boxes = [], seen = seen a_two\<rparr>, w_two_closed) \<and>
   map_of (files w0) SEEN_FNAME = None \<and>
   MailArchive_enter w0 = Inr \<lparr>boxes = [], seen = {}\<rparr> \<and>
   fst (MailArchive_add sample_lib msg_march \<lparr>boxes = [], seen = {}\<rparr> w0) \<noteq> Inl DuplicateError"
proof -
  have e: "map_of (files w0) SEEN_FNAME = None"
    by (simp add: w0_def)
  note t = reopen_preserves_dedup [where L = sample_lib and msg = msg_march and a = a0 and w = w0
      and r = "Inr ()" and ?a1.0 = a_march and ?w1.0 = w_march and later = "[Inr msg_newyear]"
      and counts = "(1, 0, 0)" and ?r2.0 = "Inr (2, 0, 0)" and ?a2.0 = a_two and ?w2.0 = w_two
      and b = False and ?w3.0 = w_two_closed and msg' = msg_march]
  have 1: "\<exists>a3. MailArchive_enter w_two_closed = Inr a3 \<and> seen a3 = seen a_two \<and>
      MailArchive_add sample_lib msg_march a3 w_two_closed = (Inl DuplicateError, a3, w_two_closed)"
    using t first_add_march keys_newyear exit_two by blast
  have 2: "MailArchive_add sample_lib msg_march \<lparr>boxes = [], seen = seen a_two\<rparr> w_two_closed =
      (Inl DuplicateError, \<lparr>boxes = [], seen = seen a_two\<rparr>, w_two_closed)"
    using 1 enter_two_closed by auto
  have 3: "MailArchive_enter w0 = Inr \<lparr>boxes = [], seen = {}\<rparr> \<and>
      fst (MailArchive_add sample_lib msg_march \<lparr>boxes = [], seen = {}\<rparr> w0) \<noteq> Inl DuplicateError"
    using t e by blast
  show ?thesis
    using first_add_march keys_newyear exit_two enter_two_closed 2 3 e by blast
qed

subsection \<open>The scope of an archive\<close>

text \<open>
  C5. A scope whose \<^verbatim>\<open>__enter__\<close> succeeded and whose body ended, normally or with
  an exception \<open>r\<close>: the scope ends in the same way \<open>r\<close>, so an exception is not
  suppressed, and the world it leaves is the one \<^verbatim>\<open>__exit__\<close>, run once on the
  state the body left, returns: the ledger file holds the whole set \<^verbatim>\<open>seen\<close>, no
  handle was added or removed, and every handle in the cache is closed.
\<close>

theorem scope_exit_closes_and_persists:
  "MailArchive_enter w = Inr a \<Longrightarrow> body a w s = (r, a1, w1, s1) \<Longrightarrow>
   (\<exists>w2. with_MailArchive body w s = (r, w2, s1) \<and>
         MailArchive_exit a1 w1 = (False, w2) \<and>
         map_of (files w2) SEEN_FNAME = Some \<lparr>messages = [], pickled = Some (seen a1)\<rparr> \<and>
         length (heap w2) = length (heap w1) \<and>
         (\<forall>h \<in> snd ` set (boxes a1). h < length (heap w1) \<longrightarrow> mbox_closed (heap w2 ! h)))"
proof -
  assume en: "MailArchive_enter w = Inr a" and bo: "body a w s = (r, a1, w1, s1)"
  obtain b w2 where ex: "MailArchive_exit a1 w1 = (b, w2)"
    by (cases "MailArchive_exit a1 w1")
  note f = exit_facts [OF ex]
  have "with_MailArchive body w s = (r, w2, s1)"
    using en bo ex f(1) by (simp add: with_MailArchive_def)
  then show ?thesis
    using ex f by blast
qed

lemma enter_empty: "MailArchive_enter w0 = Inr a0"
  by (simp add: MailArchive_enter_def sample_defs)

lemma exit_march: "MailArchive_exit a_march w_march = (False, w_march_closed)"
  by (simp add: MailArchive_exit_def sample_defs close_box_def SEEN_FNAME_def)

lemma keys_abort:
  "process_keys sample_lib [Inr msg_march, Inl OSError, Inr msg_newyear] (0, 0, 0) a0 w0 =
     (Inl OSError, a_march, w_march)"
  by (simp add: read_and_add_def first_add_march)

text \<open>
  The scope of \<^verbatim>\<open>process\<close> for a mailbox whose second key cannot be read: the
  \<^verbatim>\<open>OSError\<close> leaves the scope, the handle of 202403 is closed and the ledger file
  holds the fingerprint of the first message.
\<close>

theorem scope_exit_closes_and_persists_witness:
  "MailArchive_enter w0 = Inr a0 \<and>
   process_keys sample_lib [Inr msg_march, Inl OSError, Inr msg_newyear] (0, 0, 0) a0 w0 =
     (Inl OSError, a_march, w_march) \<and>
   process_entry sample_lib ''inbox'' [Inr msg_march, Inl OSError, Inr msg_newyear] w0 [] =
     (Inl OSError, w_march_closed, []) \<and>
   map_of (files w_march_closed) SEEN_FNAME = Some \<lparr>messages = [], pickled = Some (seen a_march)\<rparr> \<and>
   mbox_closed (heap w_march_closed ! 0)"
proof -
  let ?body = "\<lambda>a w log.
      (case process_keys sample_lib [Inr msg_march, Inl OSError, Inr msg_newyear] (0, 0, 0) a w of
         (Inl e, a', w') \<Rightarrow> (Inl e, a', w', log)
       | (Inr counts, a', w') \<Rightarrow> (Inr (), a', w', log @ [summary_line ''inbox'' counts]))"
  have bo: "?body a0 w0 [] = (Inl OSError, a_march, w_march, [])"
    by (simp only: keys_abort) simp
  from scope_exit_closes_and_persists [of w0 a0 ?body "[]", OF enter_empty bo]
  obtain w2 where w2: "with_MailArchive ?body w0 [] = (Inl OSError, w2, [])"
    "MailArchive_exit a_march w_march = (False, w2)"
    "map_of (files w2) SEEN_FNAME = Some \<lparr>messages = [], pickled = Some (seen a_march)\<rparr>"
    "\<forall>h \<in> snd ` set (boxes a_march). h < length (heap w_march) \<longrightarrow> mbox_closed (heap w2 ! h)"
    by blast
  have eq: "w2 = w_march_closed"
    using w2(2) exit_march by simp
  have cl: "mbox_closed (heap w_march_closed ! 0)"
    using w2(4) unfolding eq by (simp add: a_march_def w_march_def)
  have "process_entry sample_lib ''inbox'' [Inr msg_march, Inl OSError, Inr msg_newyear] w0 [] =
      (Inl OSError, w_march_closed, [])"
    unfolding process_entry_def using w2(1) eq by simp
  then show ?thesis
    using enter_empty keys_abort w2(3) cl unfolding eq by blast
qed

subsection \<open>Ingestion\<close>

lemma process_keys_append:
  "process_keys L pre c a w = (Inr c', a', w') \<Longrightarrow>
   process_keys L (pre @ post) c a w = process_keys L post c' a' w'"
proof (induction pre arbitrary: c a w)
  case Nil
  then show ?case by simp
next
  case (Cons x pre)
  obtain ok dup err where c: "c = (ok, dup, err)" by (cases c) auto
  obtain out a1 w1 where ra: "read_and_add L x a w = (out, a1, w1)" by (metis prod_cases3)
  show ?case
    using Cons.prems Cons.IH unfolding c append_Cons process_keys_Cons [OF ra]
    by (auto split: if_splits)
qed

lemma process_entry_abort:
  assumes "MailArchive_enter w = Inr a"
    and "process_keys L box (0, 0, 0) a w = (Inl e, a', w')"
  shows "process_entry L entry box w log = (Inl e, snd (MailArchive_exit a' w'), log)"
  using assms
  by (simp add: process_entry_def with_MailArchive_def MailArchive_exit_def)

lemma process_entry_done:
  assumes "MailArchive_enter w = Inr a"
    and "process_keys L box (0, 0, 0) a w = (Inr counts, a', w')"
  shows "process_entry L entry box w log =
    (Inr (), snd (MailArchive_exit a' w'), log @ [summary_line entry counts])"
  using assms
  by (simp add: process_entry_def with_MailArchive_def MailArchive_exit_def)

text \<open>
  C8. One key of the source mailbox, whose read and \<^verbatim>\<open>add\<close> end in \<open>out\<close>, when
  the counters stand at \<open>(ok, dup, err)\<close>: success counts as ok, \<^verbatim>\<open>KeyError\<close> counts
  as nothing, \<^verbatim>\<open>UnicodeDecodeError\<close> and \<^verbatim>\<open>UndatedError\<close> count as errors,
  \<^verbatim>\<open>DuplicateError\<close> counts as a duplicate, and in each of these cases the loop goes
  on with the rest. Any other exception ends the loop with that exception, whatever
  keys remain; in an entry that reached this key, the exception leaves the scope of the
  archive after \<^verbatim>\<open>__exit__\<close>, no summary line is logged, and \<^verbatim>\<open>process\<close>
  ends with it, whatever entries remain.
\<close>

theorem process_keys_policy:
  "read_and_add L r a w = (out, a1, w1) \<Longrightarrow>
   (out = Inr () \<longrightarrow>
      process_keys L (r # rs) (ok, dup, err) a w = process_keys L rs (ok + 1, dup, err) a1 w1) \<and>
   (out = Inl KeyError \<longrightarrow>
      process_keys L (r # rs) (ok, dup, err) a w = process_keys L rs (ok, dup, err) a1 w1) \<and>
   (out = Inl UnicodeDecodeError \<longrightarrow>
      process_keys L (r # rs) (ok, dup, err) a w = process_keys L rs (ok, dup, err + 1) a1 w1) \<and>
   (out = Inl DuplicateError \<longrightarrow>
      process_keys L (r # rs) (ok, dup, err) a w = process_keys L rs (ok, dup + 1, err) a1 w1) \<and>
   (out = Inl UndatedError \<longrightarrow>
      process_keys L (r # rs) (ok, dup, err) a w = process_keys L rs (ok, dup, err + 1) a1 w1) \<and>
   (\<forall>e. out = Inl e \<and> e \<notin> {KeyError, UnicodeDecodeError, DuplicateError, UndatedError} \<longrightarrow>
      process_keys L (r # rs) (ok, dup, err) a w = (Inl e, a1, w1) \<and>
      (\<forall>entry pre w0 a0 log more.
         MailArchive_enter w0 = Inr a0 \<and>
         process_keys L pre (0, 0, 0) a0 w0 = (Inr (ok, dup, err), a, w) \<longrightarrow>
         process_entry L entry (pre @ r # rs) w0 log =
           (Inl e, snd (MailArchive_exit a1 w1), log) \<and>
         process L (Mailbox entry (pre @ r # rs) # more) w0 log =
           (Inl e, snd (MailArchive_exit a1 w1), log)))"
proof -
  assume ra: "read_and_add L r a w = (out, a1, w1)"
  note step = process_keys_Cons [OF ra, of rs ok dup err]
  have other: "process_keys L (r # rs) (ok, dup, err) a w = (Inl e, a1, w1)"
    if "out = Inl e \<and> e \<notin> {KeyError, UnicodeDecodeError, DuplicateError, UndatedError}" for e
    using that step by auto
  have entry: "process_entry L entry (pre @ r # rs) w0 log =
      (Inl e, snd (MailArchive_exit a1 w1), log) \<and>
      process L (Mailbox entry (pre @ r # rs) # more) w0 log =
      (Inl e, snd (MailArchive_exit a1 w1), log)"
    if "out = Inl e \<and> e \<notin> {KeyError, UnicodeDecodeError, DuplicateError, UndatedError}"
      and "MailArchive_enter w0 = Inr a0 \<and>
        process_keys L pre (0, 0, 0) a0 w0 = (Inr (ok, dup, err), a, w)"
    for e entry pre w0 a0 log more
  proof -
    have "process_keys L (pre @ r # rs) (0, 0, 0) a0 w0 = (Inl e, a1, w1)"
      using process_keys_append [of L pre "(0, 0, 0)" a0 w0 "(ok, dup, err)" a w "r # rs"]
        that other by simp
    then have "process_entry L entry (pre @ r # rs) w0 log =
        (Inl e, snd (MailArchive_exit a1 w1), log)"
      using that(2) process_entry_abort by blast
    then show ?thesis by simp
  qed
  show ?thesis
    using step other entry by (intro conjI impI allI) (simp_all, blast+)
qed

text \<open>A mailbox with one key of each kind, and one whose second key raises \<^verbatim>\<open>TypeError\<close>.\<close>

lemma keys_abort_type:
  "process_keys sample_lib [Inl TypeError, Inr msg_newyear] (1, 0, 0) a_march w_march =
     (Inl TypeError, a_march, w_march)"
  by (simp add: read_and_add_def)

lemma keys_first:
  "process_keys sample_lib [Inr msg_march] (0, 0, 0) a0 w0 = (Inr (1, 0, 0), a_march, w_march)"
  by (simp add: read_and_add_def first_add_march)

lemma entry_mixed:
  "process_entry sample_lib ''inbox''
     [Inr msg_march, Inr msg_march, Inr msg_undated, Inl KeyError, Inl UnicodeDecodeError,
      Inr msg_newyear] w0 [] =
   (Inr (),
    \<lparr>files = [(''202403'', \<lparr>messages = [msg_march], pickled = None\<rparr>),
              (''202401'', \<lparr>messages = [msg_newyear], pickled = None\<rparr>),
              (''seen.pickle'',
               \<lparr>messages = [],
                pickled = Some {''a9bea4cb90746ceb3e88eca34d7d93b1'',
                                ''3db7d6c8be34e87aeacb5c5e3cf5d082'',
                                ''8e7e81b044c9f6500024d1669f2590a9''}\<rparr>)],
     heap = [\<lparr>mbox_path = ''202403'', mbox_closed = True\<rparr>,
             \<lparr>mbox_path = ''202401'', mbox_closed = True\<rparr>]\<rparr>,
    [''inbox: 2 OK, 1 duplicate(s), 2 error(s)''])"
  by code_simp

theorem process_keys_policy_witness:
  "read_and_add sample_lib (Inl TypeError) a_march w_march = (Inl TypeError, a_march, w_march) \<and>
   process_keys sample_lib [Inl TypeError, Inr msg_newyear] (1, 0, 0) a_march w_march =
     (Inl TypeError, a_march, w_march) \<and>
   process_entry sample_lib ''inbox'' [Inr msg_march, Inl TypeError, Inr msg_newyear] w0 [] =
     (Inl TypeError, w_march_closed, []) \<and>
   process_entry sample_lib ''inbox''
     [Inr msg_march, Inr msg_march, Inr msg_undated, Inl KeyError, Inl UnicodeDecodeError,
      Inr msg_newyear] w0 [] =
   (Inr (),
    \<lparr>files = [(''202403'', \<lparr>messages = [msg_march], pickled = None\<rparr>),
              (''202401'', \<lparr>messages = [msg_newyear], pickled = None\<rparr>),
              (''seen.pickle'',
               \<lparr>messages = [],
                pickled = Some {''a9bea4cb90746ceb3e88eca34d7d93b1'',
                                ''3db7d6c8be34e87aeacb5c5e3cf5d082'',
                                ''8e7e81b044c9f6500024d1669f2590a9''}\<rparr>)],
     heap = [\<lparr>mbox_path = ''202403'', mbox_closed = True\<rparr>,
             \<lparr>mbox_path = ''202401'', mbox_closed = True\<rparr>]\<rparr>,
    [''inbox: 2 OK, 1 duplicate(s), 2 error(s)''])"
proof -
  have ra: "read_and_add sample_lib (Inl TypeError) a_march w_march = (Inl TypeError, a_march, w_march)"
    by (simp add: read_and_add_def)
  note t = process_keys_policy [OF ra, of "[Inr msg_newyear]" 1 0 0]
  have 1: "process_keys sample_lib [Inl TypeError, Inr msg_newyear] (1, 0, 0) a_march w_march =
     (Inl TypeError, a_march, w_march)"
    using t by blast
  have "process_entry sample_lib ''inbox'' ([Inr msg_march] @ Inl TypeError # [Inr msg_newyear]) w0 [] =
     (Inl TypeError, snd (MailArchive_exit a_march w_march), [])"
    using t enter_empty keys_first by blast
  then have 2: "process_entry sample_lib ''inbox'' [Inr msg_march, Inl TypeError, Inr msg_newyear] w0 [] =
     (Inl TypeError, w_march_closed, [])"
    by (simp add: exit_march)
  show ?thesis
    using ra 1 2 entry_mixed by blast
qed

subsection \<open>Iteration\<close>

lemma for_msgs_append:
  "for_msgs body (xs @ ys) s =
     (case for_msgs body xs s of
        (Inl e, s') \<Rightarrow> (Inl e, s')
      | (Inr u, s') \<Rightarrow> for_msgs body ys s')"
  by (induction xs arbitrary: s) (auto split: sum.splits)

lemma for_msgs_collect: "for_msgs collect ms acc = (Inr (), acc @ ms)"
  by (induction ms arbitrary: acc) (simp_all add: collect_def)

lemma get_box_by_name_files:
  assumes "get_box_by_name name a w = (h, a', w')"
  shows "map_of (files w) n \<noteq> None \<Longrightarrow> map_of (files w') n = map_of (files w) n"
    and "map_of (files w) name \<noteq> None \<Longrightarrow> files w' = files w"
  using assms
  by (cases rule: get_box_by_name_cases; simp add: open_box_facts)+

lemma iter_step_match:
  assumes "re_match_partition name" and "get_box_by_name name a w = (h, a1, w1)"
  shows "MailArchive_iter body (name # names) a w s =
    (case for_msgs body (box_messages w1 h) s of
       (Inl e, s') \<Rightarrow> (Inl e, a1, w1, s')
     | (Inr u, s') \<Rightarrow> MailArchive_iter body names a1 w1 s')"
  using assms by simp

lemma iter_for_msgs:
  assumes "\<forall>n \<in> set names. map_of (files w) n \<noteq> None" and "cache_ok a w"
  shows "\<exists>a' w'. MailArchive_iter body names a w s =
      (fst (for_msgs body (concat (map (file_messages w) (filter re_match_partition names))) s),
       a', w',
       snd (for_msgs body (concat (map (file_messages w) (filter re_match_partition names))) s)) \<and>
      files w' = files w \<and> cache_ok a' w'"
  using assms
proof (induction names arbitrary: a w s)
  case Nil
  then show ?case by simp
next
  case (Cons name names)
  show ?case
  proof (cases "re_match_partition name")
    case False
    then show ?thesis using Cons.IH [of w a s] Cons.prems by simp
  next
    case True
    obtain h a1 w1 where g: "get_box_by_name name a w = (h, a1, w1)"
      by (metis prod_cases3)
    note gf = get_box_by_name_facts [OF g Cons.prems(2)]
    have ex: "map_of (files w) name \<noteq> None" using Cons.prems(1) by simp
    have fs: "files w1 = files w" using get_box_by_name_files(2) [OF g ex] .
    have fm: "file_messages w1 = file_messages w"
      by (rule ext) (simp add: file_messages_def fs)
    have bm: "box_messages w1 h = file_messages w name"
      using gf(1) gf(2) by (simp add: box_messages_def fm)
    have p1: "\<forall>n \<in> set names. map_of (files w1) n \<noteq> None"
      using Cons.prems(1) fs by simp
    obtain r s1 where f1: "for_msgs body (file_messages w name) s = (r, s1)"
      by (cases "for_msgs body (file_messages w name) s")
    show ?thesis
    proof (cases r)
      case (Inl e)
      then show ?thesis
        using True g f1 bm fs gf(3)
        by (simp add: for_msgs_append)
    next
      case (Inr u)
      from Cons.IH [OF p1 gf(3), of s1] obtain a' w' where
        "MailArchive_iter body names a1 w1 s1 =
          (fst (for_msgs body (concat (map (file_messages w1) (filter re_match_partition names))) s1),
           a', w',
           snd (for_msgs body (concat (map (file_messages w1) (filter re_match_partition names))) s1))"
        "files w' = files w1" "cache_ok a' w'"
        by blast
      then show ?thesis
        using True g f1 bm fs Inr
        by (simp add: for_msgs_append fm)
    qed
  qed
qed

lemma cache_ok_empty: "cache_ok \<lparr>boxes = [], seen = s\<rparr> w"
  by (simp add: cache_ok_def)

lemma enter_cache_ok: "MailArchive_enter w = Inr a \<Longrightarrow> cache_ok a w"
  by (auto simp: MailArchive_enter_def cache_ok_def split: option.splits)

lemma listing_exists: "\<forall>n \<in> set (map fst (files w)). map_of (files w) n \<noteq> None"
  by (auto simp: map_of_eq_None_iff)

lemma iter_collects_stored:
  assumes "cache_ok a w"
  shows "\<exists>a' w'. MailArchive_iter collect (map fst (files w)) a w acc =
      (Inr (), a', w', acc @ stored_messages w) \<and> files w' = files w"
  using iter_for_msgs [OF listing_exists assms, of collect acc]
  by (auto simp: for_msgs_collect stored_messages_def)

lemma export_as_loop:
  assumes "MailArchive_enter w = Inr a"
  shows "\<exists>w'. export L w out =
      (fst (for_msgs (export_msg L) (stored_messages w) (out @ [csv_header])), w',
       snd (for_msgs (export_msg L) (stored_messages w) (out @ [csv_header])))"
proof -
  from iter_for_msgs [OF listing_exists enter_cache_ok [OF assms], of "export_msg L" "out @ [csv_header]"]
  obtain a' w' where "MailArchive_iter (export_msg L) (map fst (files w)) a w (out @ [csv_header]) =
      (fst (for_msgs (export_msg L) (stored_messages w) (out @ [csv_header])), a', w',
       snd (for_msgs (export_msg L) (stored_messages w) (out @ [csv_header])))"
    unfolding stored_messages_def by blast
  then show ?thesis
    using assms by (simp add: export_def with_MailArchive_def MailArchive_exit_def)
qed

subsection \<open>Export\<close>

lemma str_int_int: "str_int (int n) = str_nat n"
  by (simp add: str_int_def)

lemma str_int_flag: "str_int (if b then 1 else 0) = (if b then ''1'' else ''0'')"
  by (simp add: str_int_def str_nat.simps digit_char_def)

text \<open>The format string of the row, interpreted.\<close>

lemma py_format_row:
  "py_format (''%s,%s,%s,%d,%d'' @ [CHR 0x0A])
     [FmtStr a, FmtStr b, FmtStr c, FmtInt n, FmtInt k] =
   Inr (a @ '','' @ b @ '','' @ c @ '','' @ str_int n @ '','' @ str_int k @ [CHR 0x0A])"
  by (simp add: format_arg_def)

lemma export_msg_skipped: "\<not> retained msg \<Longrightarrow> export_msg L msg out = Inr out"
  by (auto simp: retained_def export_msg_def split: option.splits)

lemma export_msg_row:
  assumes "retained msg" and "export_timestamp L msg = Inr dt"
  shows "export_msg L msg out = Inr (out @ [csv_row L msg])"
proof -
  obtain v where v: "msg_get msg ''From'' = Some v" "v \<noteq> Str []"
    using assms(1) by (auto simp: retained_def split: option.splits)
  have "csv_row L msg =
      strftime L dt @ '','' @ str_lower (snd (parseaddr L (hstr L v))) @ '','' @
      join '' '' (map (\<lambda>p. str_lower (snd p))
        (getaddresses L (map (hstr L) (msg_get_all msg ''To'' @ msg_get_all msg ''Cc'')))) @ '','' @
      str_nat (length (as_bytes msg)) @ '','' @
      (if msg_contains msg ''List-Id'' then ''1'' else ''0'') @ [CHR 0x0A]"
    using v assms(2)
    by (simp add: csv_row_def field_timestamp_def field_sender_def field_recipients_def
        field_size_def field_list_def comp_def)
  then show ?thesis
    unfolding export_msg_def Let_def py_format_row
    using v assms(2) by (simp add: str_int_int str_int_flag)
qed

lemma export_msg_error:
  "retained msg \<Longrightarrow> export_timestamp L msg = Inl e \<Longrightarrow> export_msg L msg out = Inl e"
  by (auto simp: retained_def export_msg_def Let_def split: option.splits)

lemma for_msgs_export_rows:
  "\<forall>m \<in> set ms. retained m \<longrightarrow> dated L m \<Longrightarrow>
   for_msgs (export_msg L) ms out = (Inr (), out @ map (csv_row L) (filter retained ms))"
proof (induction ms arbitrary: out)
  case Nil
  then show ?case by simp
next
  case (Cons m ms)
  show ?case
  proof (cases "retained m")
    case True
    then obtain dt where "export_timestamp L m = Inr dt"
      using Cons.prems by (auto simp: dated_def split: sum.splits)
    then show ?thesis
      using True Cons by (simp add: export_msg_row)
  next
    case False
    then show ?thesis
      using Cons by (simp add: export_msg_skipped)
  qed
qed

text \<open>
  The year of \<^verbatim>\<open>%Y\<close>: from the year 1000 on it has its four digits on every
  platform.
\<close>

lemma length_str_nat:
  assumes "1000 \<le> n"
  shows "4 \<le> length (str_nat n)"
proof -
  have pos: "0 < length (str_nat m)" for m
    by (subst str_nat.simps) simp
  have step: "length (str_nat m) = Suc (length (str_nat (m div 10)))" if "10 \<le> m" for m
    using that by (subst str_nat.simps) simp
  have "10 \<le> n" "10 \<le> n div 10" "10 \<le> n div 10 div 10"
    using assms by simp_all
  then have "length (str_nat n) = Suc (Suc (Suc (length (str_nat (n div 10 div 10 div 10)))))"
    by (simp add: step)
  then show ?thesis
    using pos [of "n div 10 div 10 div 10"] by (simp add: Suc_le_eq)
qed

lemma strftime_year:
  assumes "1000 \<le> dt_year dt"
  shows "strftime L dt =
     fmt_0d 4 (dt_year dt) @ ''-'' @ fmt_0d 2 (dt_month dt) @ ''-'' @ fmt_0d 2 (dt_day dt) @ '' '' @
     fmt_0d 2 (dt_hour dt) @ '':'' @ fmt_0d 2 (dt_minute dt) @ '':'' @ fmt_0d 2 (dt_second dt)"
proof -
  have "1000 \<le> nat (dt_year dt)" using assms by simp
  then have "4 \<le> length (str_nat (nat (dt_year dt)))" by (rule length_str_nat)
  then have "fmt_0d 4 (dt_year dt) = str_int (dt_year dt)"
    using assms by (simp add: fmt_0d_def str_int_def)
  then show ?thesis by (simp add: strftime_def)
qed

text \<open>Below the year 1000 the platform decides: glibc writes the year 999 with three digits.\<close>

lemma strftime_year_999:
  "strftime sample_lib
     \<lparr>dt_year = 999, dt_month = 1, dt_day = 1, dt_hour = 0, dt_minute = 0, dt_second = 0\<rparr> =
   ''999-01-01 00:00:00''"
  by (simp add: strftime_def sample_lib_def fmt_0d_def str_int_def str_nat.simps digit_char_def)

lemma stored_export: "stored_messages w_export = [msg_empty_from, msg_export, msg_march, msg_list]"
  by (simp add: stored_messages_def w_export_def file_messages_def re_match_partition_def)

lemma enter_export:
  "MailArchive_enter w_export =
     Inr \<lparr>boxes = [],
          seen = {''68c01b2853d4b343fc414f5369d216a5'', ''9d3820f004042d1a57739fb0233ba2c7'',
                  ''3db7d6c8be34e87aeacb5c5e3cf5d082'', ''fd7545794216766e82f94e762065afab''}\<rparr>"
  by (simp add: MailArchive_enter_def w_export_def SEEN_FNAME_def)

lemma retained_samples:
  "\<not> retained msg_empty_from" "retained msg_export" "\<not> retained msg_march" "retained msg_list"
  "retained msg_from_only"
  by (simp_all add: retained_def sample_defs msg_defs)

lemma timestamp_export:
  "export_timestamp sample_lib msg_export =
     Inr \<lparr>dt_year = 2024, dt_month = 3, dt_day = 15, dt_hour = 10, dt_minute = 0, dt_second = 0\<rparr>"
  by (simp add: export_timestamp_def sample_defs msg_defs date_defs)

lemma row_export:
  "csv_row sample_lib msg_export = ''2024-03-15 10:00:00,a@x.com,b@y.com,68,0'' @ [CHR 0x0A]"
  unfolding csv_row_def field_timestamp_def timestamp_export
  by (simp add: field_sender_def field_recipients_def field_size_def field_list_def
      sample_defs msg_defs date_defs)

lemma timestamp_list:
  "export_timestamp sample_lib msg_list =
     Inr \<lparr>dt_year = 2024, dt_month = 1, dt_day = 1, dt_hour = 0, dt_minute = 59, dt_second = 59\<rparr>"
  by (simp add: export_timestamp_def sample_defs msg_defs date_defs)

lemma row_list:
  "csv_row sample_lib msg_list =
     ''2024-01-01 00:59:59,bob@x.com,b@y.com c@z.org b@y.com,119,1'' @ [CHR 0x0A]"
  unfolding csv_row_def field_timestamp_def timestamp_list
  by (simp add: field_sender_def field_recipients_def field_size_def field_list_def
      sample_defs msg_defs date_defs)

lemma timestamp_from_only: "export_timestamp sample_lib msg_from_only = Inl TypeError"
  by (simp add: export_timestamp_def sample_defs msg_defs)

lemma stored_no_date: "stored_messages w_no_date = [msg_export, msg_from_only, msg_list]"
  by (simp add: stored_messages_def w_no_date_def file_messages_def re_match_partition_def)

lemma enter_no_date: "MailArchive_enter w_no_date = Inr a0"
  by (simp add: MailArchive_enter_def w_no_date_def a0_def SEEN_FNAME_def)

text \<open>
  C9, as amended. An archive that can be opened and in which every stored message with a
  From value has a Date that converts to a UTC date (as every message has that
  \<^verbatim>\<open>add\<close> stored, by \<open>add_keeps_dated\<close>): \<^verbatim>\<open>export\<close> ends
  normally and has written, after what the output held, the header line
  \<^verbatim>\<open>timestamp,sender,recipients,size,list\<close> and then, for the stored messages in
  iteration order, nothing for a message whose From header is absent or empty and the
  row of the specification for every other one. The timestamp of a row is what
  \<^verbatim>\<open>strftime('%Y-%m-%d %H:%M:%S')\<close> gives for the UTC date, which from the year
  1000 on is the date with a year of four digits and two digits for each other part.
\<close>

theorem export_header_and_rows:
  "MailArchive_enter w = Inr a \<Longrightarrow>
   \<forall>m \<in> set (stored_messages w). retained m \<longrightarrow> dated L m \<Longrightarrow>
   (\<exists>w'. export L w out =
      (Inr (), w',
       out @ (''timestamp,sender,recipients,size,list'' @ [CHR 0x0A]) #
             map (csv_row L) (filter retained (stored_messages w)))) \<and>
   (\<forall>m dt. export_timestamp L m = Inr dt \<and> 1000 \<le> dt_year dt \<longrightarrow>
      field_timestamp L m =
        fmt_0d 4 (dt_year dt) @ ''-'' @ fmt_0d 2 (dt_month dt) @ ''-'' @ fmt_0d 2 (dt_day dt) @
        '' '' @ fmt_0d 2 (dt_hour dt) @ '':'' @ fmt_0d 2 (dt_minute dt) @ '':'' @
        fmt_0d 2 (dt_second dt))"
proof (intro conjI allI impI)
  assume en: "MailArchive_enter w = Inr a"
    and ts: "\<forall>m \<in> set (stored_messages w). retained m \<longrightarrow> dated L m"
  from export_as_loop [OF en, of L out] obtain w' where
    "export L w out =
      (fst (for_msgs (export_msg L) (stored_messages w) (out @ [csv_header])), w',
       snd (for_msgs (export_msg L) (stored_messages w) (out @ [csv_header])))"
    by blast
  then have "export L w out =
      (Inr (), w', (out @ [csv_header]) @ map (csv_row L) (filter retained (stored_messages w)))"
    by (simp add: for_msgs_export_rows [OF ts])
  then show "\<exists>w'. export L w out =
      (Inr (), w',
       out @ (''timestamp,sender,recipients,size,list'' @ [CHR 0x0A]) #
             map (csv_row L) (filter retained (stored_messages w)))"
    by (simp add: csv_header_def)
next
  fix m dt
  assume "export_timestamp L m = Inr dt \<and> 1000 \<le> dt_year dt"
  then show "field_timestamp L m =
        fmt_0d 4 (dt_year dt) @ ''-'' @ fmt_0d 2 (dt_month dt) @ ''-'' @ fmt_0d 2 (dt_day dt) @
        '' '' @ fmt_0d 2 (dt_hour dt) @ '':'' @ fmt_0d 2 (dt_minute dt) @ '':'' @
        fmt_0d 2 (dt_second dt)"
    by (simp add: field_timestamp_def strftime_year)
qed

text \<open>
  The message of the specification's example, \<^verbatim>\<open>From: A@X.COM\<close> and
  \<^verbatim>\<open>To: b@y.com\<close>, of 68 bytes, stored between a message with an empty From header
  and one without a From header; and a message of 119 bytes with a List-Id header, a
  display name in From, and a Cc header that comes before the To header and repeats its
  address in other case: the addresses of To come first and the address is written twice.
\<close>

theorem export_header_and_rows_witness:
  "stored_messages w_export = [msg_empty_from, msg_export, msg_march, msg_list] \<and>
   length (as_bytes msg_export) = 68 \<and> length (as_bytes msg_list) = 119 \<and>
   dated sample_lib msg_export \<and> dated sample_lib msg_list \<and>
   fst (export sample_lib w_export []) = Inr () \<and>
   snd (snd (export sample_lib w_export [])) =
     [''timestamp,sender,recipients,size,list'' @ [CHR 0x0A],
      ''2024-03-15 10:00:00,a@x.com,b@y.com,68,0'' @ [CHR 0x0A],
      ''2024-01-01 00:59:59,bob@x.com,b@y.com c@z.org b@y.com,119,1'' @ [CHR 0x0A]] \<and>
   field_timestamp sample_lib msg_export = ''2024-03-15 10:00:00''"
proof -
  have d: "dated sample_lib msg_export" "dated sample_lib msg_list"
    by (simp_all add: dated_def timestamp_export timestamp_list)
  have ts: "\<forall>m \<in> set (stored_messages w_export). retained m \<longrightarrow> dated sample_lib m"
    by (simp add: stored_export retained_samples d)
  note t = export_header_and_rows [OF enter_export ts, of "[]"]
  from t obtain w' where
    "export sample_lib w_export [] =
      (Inr (), w',
       [] @ (''timestamp,sender,recipients,size,list'' @ [CHR 0x0A]) #
         map (csv_row sample_lib) (filter retained (stored_messages w_export)))"
    by blast
  then have e: "fst (export sample_lib w_export []) = Inr () \<and>
    snd (snd (export sample_lib w_export [])) =
     [''timestamp,sender,recipients,size,list'' @ [CHR 0x0A],
      ''2024-03-15 10:00:00,a@x.com,b@y.com,68,0'' @ [CHR 0x0A],
      ''2024-01-01 00:59:59,bob@x.com,b@y.com c@z.org b@y.com,119,1'' @ [CHR 0x0A]]"
    by (simp add: stored_export retained_samples row_export row_list)
  have l: "length (as_bytes msg_export) = 68" "length (as_bytes msg_list) = 119"
    by (simp_all add: msg_export_def msg_list_def)
  have y: "1000 \<le> dt_year \<lparr>dt_year = 2024, dt_month = 3, dt_day = 15, dt_hour = 10,
      dt_minute = 0, dt_second = 0\<rparr>"
    by simp
  from t [THEN conjunct2, rule_format, OF conjI [OF timestamp_export y]]
  have "field_timestamp sample_lib msg_export =
      fmt_0d 4 2024 @ ''-'' @ fmt_0d 2 3 @ ''-'' @ fmt_0d 2 15 @ '' '' @ fmt_0d 2 10 @ '':'' @
      fmt_0d 2 0 @ '':'' @ fmt_0d 2 0"
    by simp
  then have f: "field_timestamp sample_lib msg_export = ''2024-03-15 10:00:00''"
    by (simp add: fmt_0d_def str_nat.simps digit_char_def)
  show ?thesis
    using stored_export l d e f by blast
qed

text \<open>
  C9 as stated fails: the partition 202403 holds, between the two messages of the
  example above, a message with the header \<^verbatim>\<open>From: c@z.org\<close> and no Date header.
  The message has a From value and is not skipped; \<^verbatim>\<open>export\<close> writes the header
  line and the row of the first message, no row for this one, and ends with
  \<^verbatim>\<open>TypeError\<close> before it reaches the third.
\<close>

theorem export_sender_without_date_counterexample:
  "MailArchive_enter w_no_date = Inr a0 \<and>
   stored_messages w_no_date = [msg_export, msg_from_only, msg_list] \<and>
   retained msg_from_only \<and> msg_get msg_from_only ''Date'' = None \<and>
   fst (export sample_lib w_no_date []) = Inl TypeError \<and>
   snd (snd (export sample_lib w_no_date [])) =
     [''timestamp,sender,recipients,size,list'' @ [CHR 0x0A],
      ''2024-03-15 10:00:00,a@x.com,b@y.com,68,0'' @ [CHR 0x0A]]"
proof -
  have lp: "for_msgs (export_msg sample_lib) [msg_export, msg_from_only, msg_list] ([] @ [csv_header]) =
      (Inl TypeError, [csv_header, ''2024-03-15 10:00:00,a@x.com,b@y.com,68,0'' @ [CHR 0x0A]])"
    by (simp add: export_msg_row [OF _ timestamp_export] export_msg_error [OF _ timestamp_from_only]
        retained_samples row_export)
  from export_as_loop [OF enter_no_date, of sample_lib "[]"] obtain w' where
    "export sample_lib w_no_date [] =
      (fst (for_msgs (export_msg sample_lib) (stored_messages w_no_date) ([] @ [csv_header])), w',
       snd (for_msgs (export_msg sample_lib) (stored_messages w_no_date) ([] @ [csv_header])))"
    by blast
  then have "fst (export sample_lib w_no_date []) = Inl TypeError \<and>
    snd (snd (export sample_lib w_no_date [])) =
     [''timestamp,sender,recipients,size,list'' @ [CHR 0x0A],
      ''2024-03-15 10:00:00,a@x.com,b@y.com,68,0'' @ [CHR 0x0A]]"
    unfolding stored_no_date lp by (simp add: csv_header_def)
  moreover have "msg_get msg_from_only ''Date'' = None"
    by (simp add: sample_defs msg_defs)
  ultimately show ?thesis
    using enter_no_date stored_no_date retained_samples(5) by blast
qed

text \<open>
  C10. A stored message whose From header is there with an empty value: the loop body
  of \<^verbatim>\<open>export\<close> writes nothing for it, as it writes nothing for a message without
  a From header, and the outcome and the output of \<^verbatim>\<open>export\<close> are those of the
  loop over the stored messages without it.
\<close>

theorem export_skips_empty_from:
  "MailArchive_enter w = Inr a \<Longrightarrow> stored_messages w = pre @ msg # post \<Longrightarrow>
   msg_get msg ''From'' = Some (Str []) \<Longrightarrow>
   export_msg L msg out = Inr out \<and>
   (\<forall>m. msg_get m ''From'' = None \<longrightarrow> export_msg L m out = Inr out) \<and>
   (\<exists>w'. export L w out =
      (fst (for_msgs (export_msg L) (pre @ post) (out @ [csv_header])), w',
       snd (for_msgs (export_msg L) (pre @ post) (out @ [csv_header]))))"
proof (intro conjI allI impI)
  assume en: "MailArchive_enter w = Inr a" and st: "stored_messages w = pre @ msg # post"
    and fr: "msg_get msg ''From'' = Some (Str [])"
  show "export_msg L msg out = Inr out"
    using fr by (simp add: export_msg_def)
  have skip: "export_msg L msg s = Inr s" for s
    using fr by (simp add: export_msg_def)
  have "for_msgs (export_msg L) (pre @ msg # post) s = for_msgs (export_msg L) (pre @ post) s" for s
    by (simp add: for_msgs_append skip split: prod.splits sum.splits)
  then show "\<exists>w'. export L w out =
      (fst (for_msgs (export_msg L) (pre @ post) (out @ [csv_header])), w',
       snd (for_msgs (export_msg L) (pre @ post) (out @ [csv_header])))"
    using export_as_loop [OF en, of L out] st by simp
next
  fix m
  assume "msg_get m ''From'' = None"
  then show "export_msg L m out = Inr out"
    by (simp add: export_msg_def)
qed

text \<open>The message with the empty From header is the first of the three in 202403.\<close>

theorem export_skips_empty_from_witness:
  "stored_messages w_export = [] @ msg_empty_from # [msg_export, msg_march, msg_list] \<and>
   msg_get msg_empty_from ''From'' = Some (Str []) \<and>
   export_msg sample_lib msg_empty_from [csv_header] = Inr [csv_header] \<and>
   fst (export sample_lib w_export []) = Inr () \<and>
   snd (snd (export sample_lib w_export [])) =
     [csv_header, ''2024-03-15 10:00:00,a@x.com,b@y.com,68,0'' @ [CHR 0x0A],
      ''2024-01-01 00:59:59,bob@x.com,b@y.com c@z.org b@y.com,119,1'' @ [CHR 0x0A]]"
proof -
  have st: "stored_messages w_export = [] @ msg_empty_from # [msg_export, msg_march, msg_list]"
    by (simp add: stored_export)
  have fr: "msg_get msg_empty_from ''From'' = Some (Str [])"
    by (simp add: sample_defs msg_defs)
  have lp: "for_msgs (export_msg sample_lib) ([] @ [msg_export, msg_march, msg_list]) ([] @ [csv_header]) =
      (Inr (), [csv_header, ''2024-03-15 10:00:00,a@x.com,b@y.com,68,0'' @ [CHR 0x0A],
                ''2024-01-01 00:59:59,bob@x.com,b@y.com c@z.org b@y.com,119,1'' @ [CHR 0x0A]])"
    by (simp add: export_msg_skipped export_msg_row [OF _ timestamp_export]
        export_msg_row [OF _ timestamp_list] retained_samples row_export row_list)
  from export_skips_empty_from [OF enter_export st fr, of sample_lib "[csv_header]"]
  have 1: "export_msg sample_lib msg_empty_from [csv_header] = Inr [csv_header]"
    by blast
  from export_skips_empty_from [OF enter_export st fr, of sample_lib "[]"] obtain w' where
    "export sample_lib w_export [] =
      (fst (for_msgs (export_msg sample_lib) ([] @ [msg_export, msg_march, msg_list]) ([] @ [csv_header])),
       w',
       snd (for_msgs (export_msg sample_lib) ([] @ [msg_export, msg_march, msg_list]) ([] @ [csv_header])))"
    by blast
  then have "fst (export sample_lib w_export []) = Inr () \<and>
    snd (snd (export sample_lib w_export [])) =
      [csv_header, ''2024-03-15 10:00:00,a@x.com,b@y.com,68,0'' @ [CHR 0x0A],
       ''2024-01-01 00:59:59,bob@x.com,b@y.com c@z.org b@y.com,119,1'' @ [CHR 0x0A]]"
    unfolding lp by simp
  then show ?thesis
    using st fr 1 by blast
qed

subsection \<open>What iteration opens\<close>

text \<open>
  C6 at a directory that holds the entry 202401.bak: the name is not a six-digit
  partition name, \<^verbatim>\<open>re.match\<close> accepts it, and \<^verbatim>\<open>__iter__\<close> opens the entry and
  yields its message before the message of 202403. The notes and the ledger are not
  opened.
\<close>

theorem iter_opens_longer_name:
  "\<not> six_digit_partition_name ''202401.bak'' \<and> re_match_partition ''202401.bak'' \<and>
   MailArchive_enter w_bak = Inr (a_march\<lparr>boxes := []\<rparr>) \<and>
   MailArchive_iter collect (map fst (files w_bak)) (a_march\<lparr>boxes := []\<rparr>) w_bak [] =
     (Inr (),
      a_march\<lparr>boxes := [(''202401.bak'', 0), (''202403'', 1)]\<rparr>,
      w_bak\<lparr>heap := [\<lparr>mbox_path = ''202401.bak'', mbox_closed = False\<rparr>,
                      \<lparr>mbox_path = ''202403'', mbox_closed = False\<rparr>]\<rparr>,
      [msg_newyear, msg_march])"
  by (simp add: six_digit_partition_name_def re_match_partition_def MailArchive_enter_def
      SEEN_FNAME_def w_bak_def a_march_def box_defs collect_def)

end
